theory Spec2Isabelle
  imports Main
begin

section \<open>Release deployment script (deployment.js)\<close>

text \<open>
  The script is a sequential orchestration of three external services: the issue tracker
  (jira-client), the hosting API (axios) and local working copies (simple-git).
  Every \<^verbatim>\<open>async\<close> function is modelled as a task: a function from the state of the
  outside world to a result (a thrown error or a value), the events the task produced in
  order (console output and service calls with their replies) and the world afterwards.
  The outside world is a type parameter and the services are parameters, so every
  theorem holds for all behaviours of the services.
\<close>

subsection \<open>Errors, data received from the services, events\<close>

text \<open>
  \<open>TypeError p\<close> is the error JavaScript throws on reading property \<open>p\<close> of
  \<^verbatim>\<open>undefined\<close>; \<open>Rejected m\<close> is a rejection of a service call, with message \<open>m\<close>.
\<close>

datatype error = TypeError string | Rejected string

fun message :: "error \<Rightarrow> string" where
  "message (TypeError p) = p"
| "message (Rejected m) = m"

record issuelink =
  inwardIssue :: "string option"
  outwardIssue :: "string option"

record issue =
  issue_id :: string
  issue_key :: string
  summary :: string
  status_name :: string
  issuelinks :: "issuelink list"
  customfield_10041 :: "string option"

record search_results =
  issues :: "issue list"

record pull_request =
  repositoryName :: string
  author_name :: string

record detail_entry =
  pullRequests :: "pull_request list"

record dev_status =
  detail :: "detail_entry list"

record pr_request_data =
  title :: string
  description :: string
  source_branch_name :: string
  destination_branch_name :: string

record auth =
  username :: "string option"
  password :: "string option"

text \<open>
  The commands of simple-git the script uses. \<open>Push remote branch options\<close> is
  \<^verbatim>\<open>git.push(remote, branch, options)\<close>; the script passes no options.
\<close>

datatype git_cmd =
    Status
  | Stash
  | Fetch
  | Checkout string
  | Pull
  | CheckoutLocalBranch string
  | Push string string "string list"

datatype call =
    SearchJira string
  | GenericGet string
  | Git string git_cmd
  | AxiosPost string pr_request_data auth

datatype reply =
    Failure error
  | Issues search_results
  | Detail dev_status
  | IsClean bool
  | Done

record row =
  Summary :: string
  Status_col :: string
  Repo :: string
  Authors :: string
  Linked_issues :: string
  Deployment_remarks :: "string option"

datatype arg = Str string | ErrorObj error

datatype event =
    ConsoleLog "arg list"
  | ConsoleError "arg list"
  | ConsoleTable "(string \<times> row) list"
  | Call call reply

subsection \<open>Tasks\<close>

type_synonym ('w, 'a) task = "'w \<Rightarrow> (error + 'a) \<times> event list \<times> 'w"

definition result_of :: "(error + 'a) \<times> event list \<times> 'w \<Rightarrow> error + 'a" where
  "result_of x = fst x"

definition trace_of :: "(error + 'a) \<times> event list \<times> 'w \<Rightarrow> event list" where
  "trace_of x = fst (snd x)"

definition world_of :: "(error + 'a) \<times> event list \<times> 'w \<Rightarrow> 'w" where
  "world_of x = snd (snd x)"

text \<open>\<open>ret v\<close>: an async function returns \<open>v\<close>; \<open>throw e\<close>: it throws.\<close>

definition ret :: "'a \<Rightarrow> ('w, 'a) task" where
  "ret v w = (Inr v, [], w)"

definition throw :: "error \<Rightarrow> ('w, 'a) task" where
  "throw e w = (Inl e, [], w)"

text \<open>
  \<open>await m k\<close> is \<^verbatim>\<open>const x = await m; k(x)\<close>: a rejection of \<open>m\<close> is thrown at the
  \<^verbatim>\<open>await\<close> and skips the continuation.
\<close>

definition await :: "('w, 'a) task \<Rightarrow> ('a \<Rightarrow> ('w, 'b) task) \<Rightarrow> ('w, 'b) task" where
  "await m k w =
     (case m w of
        (Inl e, t, w') \<Rightarrow> (Inl e, t, w')
      | (Inr x, t, w') \<Rightarrow> (case k x w' of (r, t', w'') \<Rightarrow> (r, t @ t', w'')))"

text \<open>\<open>try_catch m h\<close> is \<^verbatim>\<open>try { m } catch (error) { h(error) }\<close>.\<close>

definition try_catch :: "('w, 'a) task \<Rightarrow> (error \<Rightarrow> ('w, 'a) task) \<Rightarrow> ('w, 'a) task" where
  "try_catch m h w =
     (case m w of
        (Inl e, t, w') \<Rightarrow> (case h e w' of (r, t', w'') \<Rightarrow> (r, t @ t', w''))
      | (Inr x, t, w') \<Rightarrow> (Inr x, t, w'))"

definition console_log :: "arg list \<Rightarrow> ('w, unit) task" where
  "console_log args w = (Inr (), [ConsoleLog args], w)"

definition console_error :: "arg list \<Rightarrow> ('w, unit) task" where
  "console_error args w = (Inr (), [ConsoleError args], w)"

definition console_table :: "(string \<times> row) list \<Rightarrow> ('w, unit) task" where
  "console_table t w = (Inr (), [ConsoleTable t], w)"

text \<open>
  A service call: the service answers from the world, and the call is recorded with its
  reply (\<open>rep\<close> says how a value of the service is recorded).
\<close>

definition perform ::
  "call \<Rightarrow> ('a \<Rightarrow> reply) \<Rightarrow> ('w \<Rightarrow> (error + 'a) \<times> 'w) \<Rightarrow> ('w, 'a) task" where
  "perform c rep f w =
     (case f w of
        (Inl e, w') \<Rightarrow> (Inl e, [Call c (Failure e)], w')
      | (Inr x, w') \<Rightarrow> (Inr x, [Call c (rep x)], w'))"

record 'w services =
  searchJira :: "string \<Rightarrow> 'w \<Rightarrow> (error + search_results) \<times> 'w"
  genericGet :: "string \<Rightarrow> 'w \<Rightarrow> (error + dev_status) \<times> 'w"
  git_status :: "string \<Rightarrow> 'w \<Rightarrow> (error + bool) \<times> 'w"
  git_run :: "string \<Rightarrow> git_cmd \<Rightarrow> 'w \<Rightarrow> (error + unit) \<times> 'w"
  axios_post :: "string \<Rightarrow> pr_request_data \<Rightarrow> auth \<Rightarrow> 'w \<Rightarrow> (error + unit) \<times> 'w"

subsection \<open>JavaScript library functions\<close>

text \<open>A template literal prints \<^verbatim>\<open>undefined\<close> as the string \<open>undefined\<close>.\<close>

fun template :: "string option \<Rightarrow> string" where
  "template None = ''undefined''"
| "template (Some s) = s"

definition dquote :: char where
  "dquote = CHR 0x22"

definition squote :: char where
  "squote = CHR 0x27"

text \<open>
  \<^verbatim>\<open>_.uniq\<close>: the values in order of first occurrence, each once
  (lodash pushes a value onto the result unless the result has it already).
\<close>

definition uniq :: "'a list \<Rightarrow> 'a list" where
  "uniq xs = foldl (\<lambda>acc x. if x \<in> set acc then acc else acc @ [x]) [] xs"

text \<open>\<^verbatim>\<open>Array.prototype.join\<close> on an array of strings.\<close>

fun join :: "string \<Rightarrow> string list \<Rightarrow> string" where
  "join sep [] = []"
| "join sep [x] = x"
| "join sep (x # y # ys) = x @ sep @ join sep (y # ys)"

text \<open>
  \<^verbatim>\<open>String.prototype.replace\<close> with a string pattern: the first occurrence is replaced
  (\<open>rep\<close> is taken literally; no repository the script passes contains \<^verbatim>\<open>$\<close>).
\<close>

fun replace :: "string \<Rightarrow> string \<Rightarrow> string \<Rightarrow> string" where
  "replace pat rep [] = (if pat = [] then rep else [])"
| "replace pat rep (c # cs) =
     (if take (length pat) (c # cs) = pat then rep @ drop (length pat) (c # cs)
      else c # replace pat rep cs)"

text \<open>Reading index \<open>i\<close> of an array: \<^verbatim>\<open>undefined\<close> out of range.\<close>

definition at_index :: "'a list \<Rightarrow> nat \<Rightarrow> 'a option" where
  "at_index xs i = (if i < length xs then Some (xs ! i) else None)"

text \<open>\<^verbatim>\<open>Array.prototype.map\<close> with a callback that may throw: the first throw ends it.\<close>

fun map_throw :: "('a \<Rightarrow> error + 'b) \<Rightarrow> 'a list \<Rightarrow> error + 'b list" where
  "map_throw f [] = Inr []"
| "map_throw f (x # xs) =
     (case f x of
        Inl e \<Rightarrow> Inl e
      | Inr y \<Rightarrow> (case map_throw f xs of Inl e \<Rightarrow> Inl e | Inr ys \<Rightarrow> Inr (y # ys)))"

text \<open>
  Assigning \<^verbatim>\<open>table[k] = v\<close> on an object whose keys are not array indices: an
  existing key keeps its place, a new one goes last.
\<close>

fun obj_set :: "string \<Rightarrow> 'v \<Rightarrow> (string \<times> 'v) list \<Rightarrow> (string \<times> 'v) list" where
  "obj_set k v [] = [(k, v)]"
| "obj_set k v ((k', v') # kvs) =
     (if k = k' then (k, v) # kvs else (k', v') # obj_set k v kvs)"

subsection \<open>Startup: arguments, environment, constants (lines 7 to 58)\<close>

record process =
  argv :: "string list"
  HOME :: "string option"
  BITBUCKET_USERNAME :: "string option"
  BITBUCKET_PASSWORD :: "string option"

definition RELEASE_ACTIONS :: "string list" where
  "RELEASE_ACTIONS = [''check'', ''release_branch'', ''release_pr'']"

definition releaseAction :: "process \<Rightarrow> string option" where
  "releaseAction P = at_index (argv P) 2"

text \<open>\<^verbatim>\<open>RELEASE_ACTIONS.includes(releaseAction)\<close>; \<^verbatim>\<open>undefined\<close> is no member.\<close>

definition includes_opt :: "string list \<Rightarrow> string option \<Rightarrow> bool" where
  "includes_opt xs a = (case a of None \<Rightarrow> False | Some s \<Rightarrow> s \<in> set xs)"

definition releaseVersion :: "process \<Rightarrow> string option" where
  "releaseVersion P = at_index (argv P) 3"

definition releaseBranchName :: "process \<Rightarrow> string" where
  "releaseBranchName P = ''release/'' @ template (releaseVersion P)"

definition WHITELISTED_REPOS :: "string list" where
  "WHITELISTED_REPOS =
     [''developer-api'', ''developer-center'', ''developer-oauth'', ''developer-event'',
      ''mini-app-store'', ''sub9-api'', ''metafield-api'', ''multipass-api'',
      ''merchant-event-serializer'', ''storefront-api'']"

definition REPO_BASE_PATH :: "process \<Rightarrow> string" where
  "REPO_BASE_PATH P = template (HOME P) @ ''/Documents/''"

definition BITBUCKET_WORKSPACE :: string where
  "BITBUCKET_WORKSPACE = ''starlinglabs''"

definition BITBUCKET_API_URL :: string where
  "BITBUCKET_API_URL =
     ''https://api.bitbucket.org/2.0/repositories/'' @ BITBUCKET_WORKSPACE @ ''/REPO_SLUG/''"

definition BITBUCKET_API_CREATE_PR_REQUEST_DATA :: "process \<Rightarrow> pr_request_data" where
  "BITBUCKET_API_CREATE_PR_REQUEST_DATA P =
     \<lparr> title = ''Release '' @ template (releaseVersion P),
       description = '''',
       source_branch_name = releaseBranchName P,
       destination_branch_name = ''master'' \<rparr>"

subsection \<open>Issue tracker (lines 84 to 118)\<close>

definition getPRsFromJira :: "'w services \<Rightarrow> string \<Rightarrow> ('w, dev_status) task" where
  "getPRsFromJira E issueId =
     (let path = ''/dev-status/latest/issue/detail?issueId='' @ issueId
                   @ ''&applicationType=bitbucket&dataType=pullrequest''
      in perform (GenericGet path) Detail (genericGet E path))"

text \<open>
  The \<^verbatim>\<open>catch\<close> logs the message and falls off the end of the function: the caller
  receives \<^verbatim>\<open>undefined\<close>, here \<open>None\<close>.
\<close>

definition getJiraCardsFromRelease ::
  "process \<Rightarrow> 'w services \<Rightarrow> ('w, search_results option) task" where
  "getJiraCardsFromRelease P E =
     try_catch
       (let jql = ''project = DC AND fixVersion = '' @ [dquote]
                    @ template (releaseVersion P) @ [dquote]
        in await (perform (SearchJira jql) Issues (searchJira E jql)) (\<lambda>r. ret (Some r)))
       (\<lambda>error.
          await (console_error
                   [Str ''Error retrieving Jira cards from the release:'', Str (message error)])
            (\<lambda>_. ret None))"

text \<open>
  Lines 111 and 112 (and again 133 and 134): fetch the detail of one issue and read
  \<^verbatim>\<open>detail.detail[0].pullRequests\<close>, which throws when the array \<open>detail\<close> is empty.
\<close>

definition issuePullRequests :: "'w services \<Rightarrow> issue \<Rightarrow> ('w, pull_request list) task" where
  "issuePullRequests E i =
     await (getPRsFromJira E (issue_id i))
       (\<lambda>d. case at_index (detail d) 0 of
               None \<Rightarrow> throw (TypeError ''pullRequests'')
             | Some entry \<Rightarrow> ret (pullRequests entry))"

text \<open>The \<^verbatim>\<open>for\<close> loop of \<^verbatim>\<open>getReposFromRelease\<close>, with the array \<open>repos\<close> it pushes onto.\<close>

fun getRepos_loop :: "'w services \<Rightarrow> issue list \<Rightarrow> string list \<Rightarrow> ('w, string list) task" where
  "getRepos_loop E [] repos = ret repos"
| "getRepos_loop E (i # rest) repos =
     await (issuePullRequests E i)
       (\<lambda>prs. getRepos_loop E rest (repos @ uniq (map repositoryName prs)))"

definition getReposFromRelease ::
  "'w services \<Rightarrow> search_results option \<Rightarrow> ('w, string list) task" where
  "getReposFromRelease E release =
     (case release of
        None \<Rightarrow> throw (TypeError ''issues'')
      | Some r \<Rightarrow> await (getRepos_loop E (issues r) []) (\<lambda>repos. ret (uniq repos)))"

subsection \<open>Deployment check (lines 124 to 154)\<close>

text \<open>
  \<^verbatim>\<open>p.inwardIssue ? p.inwardIssue.key : p.outwardIssue.key\<close>: a link with neither side
  throws on reading \<^verbatim>\<open>key\<close>.
\<close>

definition linked_key :: "issuelink \<Rightarrow> error + string" where
  "linked_key p =
     (case inwardIssue p of
        Some k \<Rightarrow> Inr k
      | None \<Rightarrow> (case outwardIssue p of Some k \<Rightarrow> Inr k | None \<Rightarrow> Inl (TypeError ''key'')))"

fun display_loop ::
  "'w services \<Rightarrow> issue list \<Rightarrow> (string \<times> row) list \<Rightarrow> ('w, (string \<times> row) list) task" where
  "display_loop E [] table = ret table"
| "display_loop E (i # rest) table =
     await (issuePullRequests E i)
       (\<lambda>prs. case map_throw linked_key (issuelinks i) of
                 Inl e \<Rightarrow> throw e
               | Inr keys \<Rightarrow>
                   display_loop E rest
                     (obj_set (issue_key i)
                        \<lparr> Summary = summary i,
                          Status_col = status_name i,
                          Repo = join '','' (uniq (map repositoryName prs)),
                          Authors = join '','' (uniq (map author_name prs)),
                          Linked_issues = join '','' (uniq keys),
                          Deployment_remarks = customfield_10041 i \<rparr>
                        table))"

definition displayReleaseDetails :: "process \<Rightarrow> 'w services \<Rightarrow> ('w, unit) task" where
  "displayReleaseDetails P E =
     await (getJiraCardsFromRelease P E)
       (\<lambda>jiraRes. case jiraRes of
                     None \<Rightarrow> throw (TypeError ''issues'')
                   | Some r \<Rightarrow> await (display_loop E (issues r) []) console_table)"

subsection \<open>Create release branches (lines 160 to 216)\<close>

text \<open>
  A simple-git instance is the directory it works in: the working copies are taken to
  exist, so that making the instance does not fail. Every command but \<^verbatim>\<open>status\<close> is
  used for its effect only.
\<close>

definition git :: "'w services \<Rightarrow> string \<Rightarrow> git_cmd \<Rightarrow> ('w, unit) task" where
  "git E baseDir c = perform (Git baseDir c) (\<lambda>_. Done) (git_run E baseDir c)"

definition stashChangesIfNeeded :: "'w services \<Rightarrow> string \<Rightarrow> ('w, unit) task" where
  "stashChangesIfNeeded E baseDir =
     await (perform (Git baseDir Status) IsClean (git_status E baseDir))
       (\<lambda>isClean.
          if \<not> isClean then
            await (console_log [Str ''Stashing uncommitted changes...''])
              (\<lambda>_. git E baseDir Stash)
          else ret ())"

definition checkoutBranch ::
  "process \<Rightarrow> 'w services \<Rightarrow> string \<Rightarrow> string \<Rightarrow> ('w, unit) task" where
  "checkoutBranch P E repository branchName =
     (let repositoryPath = REPO_BASE_PATH P @ repository
      in await (stashChangesIfNeeded E repositoryPath)
        (\<lambda>_. await (git E repositoryPath Fetch)
        (\<lambda>_. await (git E repositoryPath (Checkout ''dev''))
        (\<lambda>_. await (git E repositoryPath Pull)
        (\<lambda>_. await (git E repositoryPath (CheckoutLocalBranch branchName))
        (\<lambda>_. git E repositoryPath (Push ''origin'' branchName [])))))))"

fun branches_loop :: "process \<Rightarrow> 'w services \<Rightarrow> string list \<Rightarrow> ('w, unit) task" where
  "branches_loop P E [] = ret ()"
| "branches_loop P E (repository # rest) =
     await
       (if repository \<in> set WHITELISTED_REPOS then
          await (console_log
                   [Str (''[-] Creating release branch '' @ [squote] @ releaseBranchName P
                         @ [squote] @ '' in repository '' @ [squote] @ repository @ [squote]
                         @ ''...'')])
            (\<lambda>_. try_catch
                    (await (checkoutBranch P E repository (releaseBranchName P))
                       (\<lambda>_. console_log
                               [Str (''[O] Successfully created release branch for repository ''
                                     @ [squote] @ repository @ [squote])]))
                    (\<lambda>error. console_error
                                [Str (''[X] Error occured when creating release branch for repository ''
                                      @ [squote] @ repository @ [squote] @ '':''),
                                 ErrorObj error]))
        else
          console_log
            [Str (''[!] '' @ repository
                  @ '' should not be deployed by Open Platform, skip creating release branch'')])
       (\<lambda>_. await (console_log []) (\<lambda>_. branches_loop P E rest))"

definition createReleaseBranches :: "process \<Rightarrow> 'w services \<Rightarrow> ('w, unit) task" where
  "createReleaseBranches P E =
     await (getJiraCardsFromRelease P E)
       (\<lambda>jiraRes. await (getReposFromRelease E jiraRes) (branches_loop P E))"

subsection \<open>Create release pull requests (lines 222 to 256)\<close>

definition createBitbucketPr :: "process \<Rightarrow> 'w services \<Rightarrow> string \<Rightarrow> ('w, unit) task" where
  "createBitbucketPr P E repo =
     (let apiUrl = replace ''REPO_SLUG'' repo BITBUCKET_API_URL @ ''pullrequests'';
          data = BITBUCKET_API_CREATE_PR_REQUEST_DATA P;
          credentials = \<lparr> username = BITBUCKET_USERNAME P, password = BITBUCKET_PASSWORD P \<rparr>
      in perform (AxiosPost apiUrl data credentials) (\<lambda>_. Done)
           (axios_post E apiUrl data credentials))"

fun prs_loop :: "process \<Rightarrow> 'w services \<Rightarrow> string list \<Rightarrow> ('w, unit) task" where
  "prs_loop P E [] = ret ()"
| "prs_loop P E (repository # rest) =
     await
       (if repository \<in> set WHITELISTED_REPOS then
          await (console_log
                   [Str (''[-] Creating release PR for repository '' @ [squote] @ repository
                         @ [squote] @ ''...'')])
            (\<lambda>_. try_catch
                    (await (createBitbucketPr P E repository)
                       (\<lambda>_. console_log
                               [Str (''[O] Successfully create release PR for repository ''
                                     @ [squote] @ repository @ [squote])]))
                    (\<lambda>error. console_error
                                [Str (''[X] Error occured when creating release PR for repository ''
                                      @ [squote] @ repository @ [squote] @ '':''),
                                 ErrorObj error]))
        else
          console_log
            [Str (''[!] '' @ repository
                  @ '' should not be deployed by Open Platform, skip creating release PR'')])
       (\<lambda>_. await (console_log []) (\<lambda>_. prs_loop P E rest))"

definition createReleasePRs :: "process \<Rightarrow> 'w services \<Rightarrow> ('w, unit) task" where
  "createReleasePRs P E =
     await (getJiraCardsFromRelease P E)
       (\<lambda>jiraRes. await (getReposFromRelease E jiraRes) (prs_loop P E))"

subsection \<open>Main control (lines 9 to 14 and 261 to 273)\<close>

text \<open>
  The module returns early on an action outside \<open>RELEASE_ACTIONS\<close>. The entry points
  are called without \<^verbatim>\<open>await\<close>: the result of \<open>main\<close> is how the promise of the one
  that was called settles, \<open>Inl\<close> being a rejection nothing handles.
\<close>

definition main :: "process \<Rightarrow> 'w services \<Rightarrow> ('w, unit) task" where
  "main P E =
     (if \<not> includes_opt RELEASE_ACTIONS (releaseAction P) then
        console_error
          [Str (''Invalid action '' @ [dquote] @ template (releaseAction P) @ [dquote] @ ''!'')]
      else if releaseAction P = Some ''check'' then displayReleaseDetails P E
      else if releaseAction P = Some ''release_branch'' then createReleaseBranches P E
      else if releaseAction P = Some ''release_pr'' then createReleasePRs P E
      else ret ())"

section \<open>Observations on a run\<close>

subsection \<open>What a trace shows\<close>

text \<open>The git calls of a trace: working copy, command, reply.\<close>

fun git_event :: "event \<Rightarrow> (string \<times> git_cmd \<times> reply) list" where
  "git_event (Call (Git d c) r) = [(d, c, r)]"
| "git_event _ = []"

definition git_events :: "event list \<Rightarrow> (string \<times> git_cmd \<times> reply) list" where
  "git_events tr = concat (map git_event tr)"

text \<open>The requests to the hosting API: URL, body, credentials, reply.\<close>

fun post_event :: "event \<Rightarrow> (string \<times> pr_request_data \<times> auth \<times> reply) list" where
  "post_event (Call (AxiosPost u d a) r) = [(u, d, a, r)]"
| "post_event _ = []"

definition post_events :: "event list \<Rightarrow> (string \<times> pr_request_data \<times> auth \<times> reply) list" where
  "post_events tr = concat (map post_event tr)"

text \<open>The errors of the detail fetches that failed.\<close>

fun detail_failure :: "event \<Rightarrow> error list" where
  "detail_failure (Call (GenericGet p) (Failure e)) = [e]"
| "detail_failure _ = []"

definition detail_failures :: "event list \<Rightarrow> error list" where
  "detail_failures tr = concat (map detail_failure tr)"

fun failure_of :: "reply \<Rightarrow> error list" where
  "failure_of (Failure e) = [e]"
| "failure_of _ = []"

text \<open>The working copies on which \<^verbatim>\<open>status\<close> was asked: where the Branch Operator started.\<close>

definition status_dirs :: "event list \<Rightarrow> string list" where
  "status_dirs tr = map fst (filter (\<lambda>(d, c, r). c = Status) (git_events tr))"

definition git_failures :: "event list \<Rightarrow> (string \<times> error) list" where
  "git_failures tr = concat (map (\<lambda>(d, c, r). map (Pair d) (failure_of r)) (git_events tr))"

definition post_failures :: "event list \<Rightarrow> (string \<times> error) list" where
  "post_failures tr =
     concat (map (\<lambda>(u, d, a, r). map (Pair u) (failure_of r)) (post_events tr))"

text \<open>The branch names that git commands of a trace create or push.\<close>

fun branch_named :: "git_cmd \<Rightarrow> string list" where
  "branch_named (CheckoutLocalBranch b) = [b]"
| "branch_named (Push remote b options) = [b]"
| "branch_named _ = []"

definition branches_used :: "event list \<Rightarrow> string list" where
  "branches_used tr = concat (map (\<lambda>(d, c, r). branch_named c) (git_events tr))"

text \<open>
  A push asks git for upstream tracking with the option \<^verbatim>\<open>-u\<close> or
  \<^verbatim>\<open>--set-upstream\<close>.
\<close>

fun requests_upstream :: "git_cmd \<Rightarrow> bool" where
  "requests_upstream (Push remote b options) =
     (''--set-upstream'' \<in> set options \<or> ''-u'' \<in> set options)"
| "requests_upstream _ = False"

subsection \<open>Names for the strings the script builds\<close>

definition detail_path :: "string \<Rightarrow> string" where
  "detail_path issueId =
     ''/dev-status/latest/issue/detail?issueId='' @ issueId
       @ ''&applicationType=bitbucket&dataType=pullrequest''"

definition release_jql :: "process \<Rightarrow> string" where
  "release_jql P =
     ''project = DC AND fixVersion = '' @ [CHR 0x22] @ template (releaseVersion P) @ [CHR 0x22]"

definition working_copy :: "process \<Rightarrow> string \<Rightarrow> string" where
  "working_copy P repo = REPO_BASE_PATH P @ repo"

definition pr_url :: "string \<Rightarrow> string" where
  "pr_url repo = ''https://api.bitbucket.org/2.0/repositories/starlinglabs/'' @ repo @ ''/pullrequests''"

definition credentials :: "process \<Rightarrow> auth" where
  "credentials P = \<lparr> username = BITBUCKET_USERNAME P, password = BITBUCKET_PASSWORD P \<rparr>"

definition whitelisted :: "string \<Rightarrow> bool" where
  "whitelisted repo = (repo \<in> set WHITELISTED_REPOS)"

definition stash_notice :: event where
  "stash_notice = ConsoleLog [Str ''Stashing uncommitted changes...'']"

definition branch_start_notice :: "process \<Rightarrow> string \<Rightarrow> event" where
  "branch_start_notice P repo =
     ConsoleLog [Str (''[-] Creating release branch '' @ [CHR 0x27] @ releaseBranchName P
                      @ [CHR 0x27] @ '' in repository '' @ [CHR 0x27] @ repo @ [CHR 0x27]
                      @ ''...'')]"

definition branch_done_notice :: "string \<Rightarrow> event" where
  "branch_done_notice repo =
     ConsoleLog [Str (''[O] Successfully created release branch for repository ''
                      @ [CHR 0x27] @ repo @ [CHR 0x27])]"

definition branch_error_notice :: "string \<Rightarrow> error \<Rightarrow> event" where
  "branch_error_notice repo e =
     ConsoleError [Str (''[X] Error occured when creating release branch for repository ''
                        @ [CHR 0x27] @ repo @ [CHR 0x27] @ '':''),
                   ErrorObj e]"

definition branch_skip_notice :: "string \<Rightarrow> event" where
  "branch_skip_notice repo =
     ConsoleLog [Str (''[!] '' @ repo
                      @ '' should not be deployed by Open Platform, skip creating release branch'')]"

definition branch_end_notice :: "string \<Rightarrow> error + unit \<Rightarrow> event" where
  "branch_end_notice repo res =
     (case res of Inl e \<Rightarrow> branch_error_notice repo e | Inr _ \<Rightarrow> branch_done_notice repo)"

definition pr_start_notice :: "string \<Rightarrow> event" where
  "pr_start_notice repo =
     ConsoleLog [Str (''[-] Creating release PR for repository '' @ [CHR 0x27] @ repo
                      @ [CHR 0x27] @ ''...'')]"

definition pr_done_notice :: "string \<Rightarrow> event" where
  "pr_done_notice repo =
     ConsoleLog [Str (''[O] Successfully create release PR for repository ''
                      @ [CHR 0x27] @ repo @ [CHR 0x27])]"

definition pr_error_notice :: "string \<Rightarrow> error \<Rightarrow> event" where
  "pr_error_notice repo e =
     ConsoleError [Str (''[X] Error occured when creating release PR for repository ''
                        @ [CHR 0x27] @ repo @ [CHR 0x27] @ '':''),
                   ErrorObj e]"

definition pr_skip_notice :: "string \<Rightarrow> event" where
  "pr_skip_notice repo =
     ConsoleLog [Str (''[!] '' @ repo
                      @ '' should not be deployed by Open Platform, skip creating release PR'')]"

definition pr_end_notice :: "string \<Rightarrow> error + unit \<Rightarrow> event" where
  "pr_end_notice repo res =
     (case res of Inl e \<Rightarrow> pr_error_notice repo e | Inr _ \<Rightarrow> pr_done_notice repo)"

subsection \<open>The specification's words\<close>

text \<open>
  Repository Resolver, first half: for each issue of the release, in order, fetch its
  pull-request references; the first fetch that fails ends it.
\<close>

fun collectPullRequests :: "'w services \<Rightarrow> issue list \<Rightarrow> ('w, pull_request list list) task" where
  "collectPullRequests E [] = ret []"
| "collectPullRequests E (i # rest) =
     await (issuePullRequests E i)
       (\<lambda>prs. await (collectPullRequests E rest) (\<lambda>prss. ret (prs # prss)))"

text \<open>The repository names that the pull requests of a release refer to.\<close>

definition referenced_repos :: "pull_request list list \<Rightarrow> string set" where
  "referenced_repos prss = (\<Union>prs \<in> set prss. repositoryName ` set prs)"

text \<open>
  Branch Operator: after the status query, the steps in their order; \<open>Stash\<close> is a step
  only when the working copy is not clean.
\<close>

definition branch_steps :: "bool \<Rightarrow> string \<Rightarrow> git_cmd list" where
  "branch_steps isClean b =
     (if isClean then [] else [Stash])
       @ [Fetch, Checkout ''dev'', Pull, CheckoutLocalBranch b, Push ''origin'' b []]"

text \<open>
  \<open>follows steps calls res\<close>: the calls made are the steps in their order, up to and
  including the first one that failed; its error is the result; with no failure every
  step was made and the result is a normal return.
\<close>

fun follows :: "git_cmd list \<Rightarrow> (git_cmd \<times> reply) list \<Rightarrow> error + unit \<Rightarrow> bool" where
  "follows [] [] res = (res = Inr ())"
| "follows (c # cs) ((c', Failure e) # rest) res = (c' = c \<and> rest = [] \<and> res = Inl e)"
| "follows (c # cs) ((c', r) # rest) res = (c' = c \<and> follows cs rest res)"
| "follows _ _ _ = False"

definition branch_sequence :: "string \<Rightarrow> (git_cmd \<times> reply) list \<Rightarrow> error + unit \<Rightarrow> bool" where
  "branch_sequence b calls res =
     (case calls of
        [] \<Rightarrow> False
      | (c, r) # rest \<Rightarrow>
          c = Status \<and>
          (case r of
             Failure e \<Rightarrow> rest = [] \<and> res = Inl e
           | IsClean isClean \<Rightarrow> follows (branch_steps isClean b) rest res
           | _ \<Rightarrow> False))"

text \<open>
  The git calls of a batch, given for each repository that was worked on, in order, the
  calls made in its working copy.
\<close>

definition runs_events ::
  "process \<Rightarrow> (string \<times> (git_cmd \<times> reply) list) list \<Rightarrow> (string \<times> git_cmd \<times> reply) list" where
  "runs_events P runs =
     concat (map (\<lambda>(repo, calls). map (\<lambda>(c, r). (working_copy P repo, c, r)) calls) runs)"

text \<open>Running a list of git commands in one working copy, up to the first failure.\<close>

fun run_steps :: "'w services \<Rightarrow> string \<Rightarrow> git_cmd list \<Rightarrow> ('w, unit) task" where
  "run_steps E d [] = ret ()"
| "run_steps E d (c # cs) = await (git E d c) (\<lambda>_. run_steps E d cs)"

definition git_trace :: "string \<Rightarrow> (git_cmd \<times> reply) list \<Rightarrow> event list" where
  "git_trace d calls = map (\<lambda>(c, r). Call (Git d c) r) calls"

text \<open>The events of one run of the Branch Operator, given its git calls and replies.\<close>

definition branch_trace :: "string \<Rightarrow> (git_cmd \<times> reply) list \<Rightarrow> event list" where
  "branch_trace d calls =
     (case calls of
        (Status, IsClean False) # rest \<Rightarrow>
          Call (Git d Status) (IsClean False) # stash_notice # git_trace d rest
      | _ \<Rightarrow> git_trace d calls)"

subsection \<open>A release to run the script on\<close>

text \<open>
  Release 2.0.0 has two issues. DC-1 links pull requests in developer-api (twice) and in
  scratchpad, which is not whitelisted; DC-2 links developer-api and developer-center.
  The working copy of developer-api fails to fetch, and the hosting API refuses a pull
  request for developer-api. The two flags say whether the search and the detail
  fetches answer or fail.
\<close>

definition example_process :: "string list \<Rightarrow> process" where
  "example_process args =
     \<lparr> argv = [''node'', ''deployment.js''] @ args,
       HOME = Some ''/home/dev'',
       BITBUCKET_USERNAME = Some ''bot'',
       BITBUCKET_PASSWORD = Some ''secret'' \<rparr>"

definition issue_X :: issue where
  "issue_X =
     \<lparr> issue_id = ''10001'', issue_key = ''DC-1'', summary = ''Add endpoint'',
       status_name = ''Done'',
       issuelinks = [\<lparr> inwardIssue = Some ''DC-2'', outwardIssue = None \<rparr>],
       customfield_10041 = None \<rparr>"

definition issue_Y :: issue where
  "issue_Y =
     \<lparr> issue_id = ''10002'', issue_key = ''DC-2'', summary = ''Fix login'',
       status_name = ''In Review'',
       issuelinks = [],
       customfield_10041 = Some ''run migration'' \<rparr>"

definition detail_X :: dev_status where
  "detail_X =
     \<lparr> detail =
         [\<lparr> pullRequests =
              [\<lparr> repositoryName = ''developer-api'', author_name = ''alice'' \<rparr>,
               \<lparr> repositoryName = ''scratchpad'', author_name = ''bob'' \<rparr>,
               \<lparr> repositoryName = ''developer-api'', author_name = ''alice'' \<rparr>] \<rparr>] \<rparr>"

definition detail_Y :: dev_status where
  "detail_Y =
     \<lparr> detail =
         [\<lparr> pullRequests =
              [\<lparr> repositoryName = ''developer-api'', author_name = ''carol'' \<rparr>,
               \<lparr> repositoryName = ''developer-center'', author_name = ''carol'' \<rparr>] \<rparr>] \<rparr>"

definition scenario_services :: "bool \<Rightarrow> bool \<Rightarrow> unit services" where
  "scenario_services search_ok detail_ok =
     \<lparr> searchJira =
         (\<lambda>jql w. (if search_ok then Inr \<lparr> issues = [issue_X, issue_Y] \<rparr>
                    else Inl (Rejected ''network error''), w)),
       genericGet =
         (\<lambda>path w. (if \<not> detail_ok then Inl (Rejected ''network error'')
                     else if path = detail_path ''10001'' then Inr detail_X
                     else Inr detail_Y, w)),
       git_status = (\<lambda>dir w. (Inr True, w)),
       git_run =
         (\<lambda>dir c w. (if dir = ''/home/dev/Documents/developer-api'' \<and> c = Fetch
                      then Inl (Rejected ''fetch failed'') else Inr (), w)),
       axios_post =
         (\<lambda>url d a w. (if url = pr_url ''developer-api'' then Inl (Rejected ''conflict'')
                        else Inr (), w)) \<rparr>"

text \<open>An issue without pull requests: the detail has its entry, with no pull request in it.\<close>

definition issue_Z :: issue where
  "issue_Z =
     \<lparr> issue_id = ''10003'', issue_key = ''DC-3'', summary = ''Write docs'',
       status_name = ''To Do'', issuelinks = [], customfield_10041 = None \<rparr>"

definition quiet_services :: "unit services" where
  "quiet_services =
     \<lparr> searchJira = (\<lambda>jql w. (Inr \<lparr> issues = [issue_Z] \<rparr>, w)),
       genericGet = (\<lambda>path w. (Inr \<lparr> detail = [\<lparr> pullRequests = [] \<rparr>] \<rparr>, w)),
       git_status = (\<lambda>dir w. (Inr False, w)),
       git_run = (\<lambda>dir c w. (Inr (), w)),
       axios_post = (\<lambda>url d a w. (Inr (), w)) \<rparr>"

section \<open>Properties\<close>

subsection \<open>Library functions and tasks\<close>

lemma uniq_fold:
  "distinct acc \<Longrightarrow>
   distinct (foldl (\<lambda>acc x. if x \<in> set acc then acc else acc @ [x]) acc xs) \<and>
   set (foldl (\<lambda>acc x. if x \<in> set acc then acc else acc @ [x]) acc xs) = set acc \<union> set xs"
  by (induction xs arbitrary: acc) auto

lemma distinct_uniq: "distinct (uniq xs)"
  using uniq_fold [of "[]" xs] by (simp add: uniq_def)

lemma set_uniq: "set (uniq xs) = set xs"
  using uniq_fold [of "[]" xs] by (simp add: uniq_def)

lemma uniq_Nil: "uniq [] = []"
  by (simp add: uniq_def)

lemma count_list_distinct: "distinct xs \<Longrightarrow> x \<in> set xs \<Longrightarrow> count_list xs x = 1"
  by (induction xs) auto

lemma task_cases [case_names fail ok]:
  obtains (fail) e t w' where "m w = (Inl e, t, w')"
        | (ok) x t w' where "m w = (Inr x, t, w')"
  by (cases "m w"; case_tac a) auto

lemma await_alt:
  "await m k w =
     (case m w of
        (Inl e, t, w') \<Rightarrow> (Inl e, t, w')
      | (Inr x, t, w') \<Rightarrow> (result_of (k x w'), t @ trace_of (k x w'), world_of (k x w')))"
  by (simp add: await_def result_of_def trace_of_def world_of_def split: prod.splits sum.splits)

lemma try_catch_alt:
  "try_catch m h w =
     (case m w of
        (Inl e, t, w') \<Rightarrow> (result_of (h e w'), t @ trace_of (h e w'), world_of (h e w'))
      | (Inr x, t, w') \<Rightarrow> (Inr x, t, w'))"
  by (simp add: try_catch_def result_of_def trace_of_def world_of_def split: prod.splits sum.splits)

lemma await_unit: "await m ret = m"
  by (rule ext) (auto simp: await_def ret_def split: prod.splits sum.splits)

lemma triple_eq [simp]: "(result_of x, trace_of x, world_of x) = x"
  by (simp add: result_of_def trace_of_def world_of_def)

lemma proj_simps [simp]:
  "result_of (r, t, w) = r" "trace_of (r, t, w) = t" "world_of (r, t, w) = w"
  by (simp_all add: result_of_def trace_of_def world_of_def)

lemma await_trace_prefix: "\<exists>rest. trace_of (await m k w) = trace_of (m w) @ rest"
  by (cases rule: task_cases [of m w]) (simp_all add: await_alt)

subsection \<open>What a trace shows\<close>

lemma git_events_simps [simp]:
  "git_events [] = []"
  "git_events (e # tr) = git_event e @ git_events tr"
  "git_events (a @ b) = git_events a @ git_events b"
  by (simp_all add: git_events_def)

lemma post_events_simps [simp]:
  "post_events [] = []"
  "post_events (e # tr) = post_event e @ post_events tr"
  "post_events (a @ b) = post_events a @ post_events b"
  by (simp_all add: post_events_def)

lemma detail_failures_simps [simp]:
  "detail_failures [] = []"
  "detail_failures (e # tr) = detail_failure e @ detail_failures tr"
  "detail_failures (a @ b) = detail_failures a @ detail_failures b"
  by (simp_all add: detail_failures_def)

lemma status_dirs_simps [simp]:
  "status_dirs [] = []"
  "status_dirs (a @ b) = status_dirs a @ status_dirs b"
  by (simp_all add: status_dirs_def)

lemma git_failures_simps [simp]:
  "git_failures [] = []"
  "git_failures (a @ b) = git_failures a @ git_failures b"
  by (simp_all add: git_failures_def)

lemma branches_used_simps [simp]:
  "branches_used [] = []"
  "branches_used (a @ b) = branches_used a @ branches_used b"
  by (simp_all add: branches_used_def)

lemma post_failures_simps [simp]:
  "post_failures [] = []"
  "post_failures (a @ b) = post_failures a @ post_failures b"
  "post_event e = [] \<Longrightarrow> post_failures (e # tr) = post_failures tr"
  by (simp_all add: post_failures_def)

lemma git_free_Cons [simp]:
  "git_event e = [] \<Longrightarrow> status_dirs (e # tr) = status_dirs tr"
  "git_event e = [] \<Longrightarrow> git_failures (e # tr) = git_failures tr"
  "git_event e = [] \<Longrightarrow> branches_used (e # tr) = branches_used tr"
  by (simp_all add: status_dirs_def git_failures_def branches_used_def)

lemma git_free_projections:
  "git_events t = [] \<Longrightarrow> branches_used (t @ t') = branches_used t'"
  "git_events t = [] \<Longrightarrow> status_dirs (t @ t') = status_dirs t'"
  "git_events t = [] \<Longrightarrow> git_failures (t @ t') = git_failures t'"
  "post_events t = [] \<Longrightarrow> post_failures (t @ t') = post_failures t'"
  by (simp_all add: branches_used_def status_dirs_def git_failures_def post_failures_def)

lemma git_trace_simps [simp]:
  "git_trace d [] = []"
  "git_trace d ((c, r) # calls) = Call (Git d c) r # git_trace d calls"
  by (simp_all add: git_trace_def)

lemma git_events_git_trace [simp]:
  "git_events (git_trace d calls) = map (\<lambda>(c, r). (d, c, r)) calls"
  by (induction calls) auto

lemma post_events_git_trace [simp]: "post_events (git_trace d calls) = []"
  by (induction calls) auto

lemma detail_failures_git_trace [simp]: "detail_failures (git_trace d calls) = []"
  by (induction calls) auto

lemma git_events_branch_trace [simp]:
  "git_events (branch_trace d calls) = map (\<lambda>(c, r). (d, c, r)) calls"
  by (auto simp: branch_trace_def stash_notice_def
           split: list.splits git_cmd.splits reply.splits bool.splits)

lemma post_events_branch_trace [simp]: "post_events (branch_trace d calls) = []"
  by (auto simp: branch_trace_def stash_notice_def
           split: list.splits git_cmd.splits reply.splits bool.splits)

lemma detail_failures_branch_trace [simp]: "detail_failures (branch_trace d calls) = []"
  by (auto simp: branch_trace_def stash_notice_def
           split: list.splits git_cmd.splits reply.splits bool.splits)

lemma branch_notices [simp]:
  "git_event (branch_start_notice P repo) = []"
  "git_event (branch_end_notice repo res) = []"
  "git_event (branch_skip_notice repo) = []"
  "post_event (branch_start_notice P repo) = []"
  "post_event (branch_end_notice repo res) = []"
  "post_event (branch_skip_notice repo) = []"
  "detail_failure (branch_start_notice P repo) = []"
  "detail_failure (branch_end_notice repo res) = []"
  "detail_failure (branch_skip_notice repo) = []"
  by (simp_all add: branch_start_notice_def branch_end_notice_def branch_skip_notice_def
                    branch_error_notice_def branch_done_notice_def split: sum.splits)

lemma pr_notices [simp]:
  "git_event (pr_start_notice repo) = []"
  "git_event (pr_end_notice repo res) = []"
  "git_event (pr_skip_notice repo) = []"
  "post_event (pr_start_notice repo) = []"
  "post_event (pr_end_notice repo res) = []"
  "post_event (pr_skip_notice repo) = []"
  "detail_failure (pr_start_notice repo) = []"
  "detail_failure (pr_end_notice repo res) = []"
  "detail_failure (pr_skip_notice repo) = []"
  by (simp_all add: pr_start_notice_def pr_end_notice_def pr_skip_notice_def
                    pr_error_notice_def pr_done_notice_def split: sum.splits)

subsection \<open>The issue tracker\<close>

lemma getJiraCards_cases [case_names fail ok]:
  obtains (fail) e w' where
      "getJiraCardsFromRelease P E w =
         (Inr None,
          [Call (SearchJira (release_jql P)) (Failure e),
           ConsoleError [Str ''Error retrieving Jira cards from the release:'', Str (message e)]],
          w')"
      "searchJira E (release_jql P) w = (Inl e, w')"
    | (ok) r w' where
      "getJiraCardsFromRelease P E w =
         (Inr (Some r), [Call (SearchJira (release_jql P)) (Issues r)], w')"
      "searchJira E (release_jql P) w = (Inr r, w')"
proof (cases "searchJira E (release_jql P) w")
  case (Pair a w')
  show ?thesis
  proof (cases a)
    case (Inl e)
    with Pair show ?thesis
      by (intro fail [of e w'])
         (simp_all add: getJiraCardsFromRelease_def try_catch_alt await_alt perform_def
                    console_error_def ret_def Let_def release_jql_def dquote_def)
  next
    case (Inr r)
    with Pair show ?thesis
      by (intro ok [of r w'])
         (simp_all add: getJiraCardsFromRelease_def try_catch_alt await_alt perform_def
                    console_error_def ret_def Let_def release_jql_def dquote_def)
  qed
qed

lemma getJiraCards_summary:
  "(\<exists>release. result_of (getJiraCardsFromRelease P E w) = Inr release) \<and>
   git_events (trace_of (getJiraCardsFromRelease P E w)) = [] \<and>
   post_events (trace_of (getJiraCardsFromRelease P E w)) = [] \<and>
   detail_failures (trace_of (getJiraCardsFromRelease P E w)) = [] \<and>
   (\<exists>reply rest. trace_of (getJiraCardsFromRelease P E w)
                   = Call (SearchJira (release_jql P)) reply # rest)"
  by (cases rule: getJiraCards_cases [of P E w]) simp_all

lemma await_search_first:
  "\<exists>reply rest. trace_of (await (getJiraCardsFromRelease P E) k w)
                   = Call (SearchJira (release_jql P)) reply # rest"
proof -
  obtain reply rest where
    "trace_of (getJiraCardsFromRelease P E w) = Call (SearchJira (release_jql P)) reply # rest"
    using getJiraCards_summary [of P E w] by blast
  moreover obtain rest' where
    "trace_of (await (getJiraCardsFromRelease P E) k w)
       = trace_of (getJiraCardsFromRelease P E w) @ rest'"
    using await_trace_prefix [of "getJiraCardsFromRelease P E" k w] by blast
  ultimately show ?thesis by simp
qed

lemma entry_points_start_with_search:
  "\<exists>reply rest. trace_of (displayReleaseDetails P E w)
                   = Call (SearchJira (release_jql P)) reply # rest"
  "\<exists>reply rest. trace_of (createReleaseBranches P E w)
                   = Call (SearchJira (release_jql P)) reply # rest"
  "\<exists>reply rest. trace_of (createReleasePRs P E w)
                   = Call (SearchJira (release_jql P)) reply # rest"
  unfolding displayReleaseDetails_def createReleaseBranches_def createReleasePRs_def
  by (rule await_search_first)+

text \<open>
  When the search fails, the message is logged and the three entry points read
  \<^verbatim>\<open>issues\<close> of \<^verbatim>\<open>undefined\<close>: each ends in a TypeError that nothing catches, with
  no table, no git call and no request to the hosting API.
\<close>

lemma search_failure_entry_points:
  assumes "searchJira E (release_jql P) w = (Inl e, w')"
  defines "out \<equiv>
    (Inl (TypeError ''issues''),
     [Call (SearchJira (release_jql P)) (Failure e),
      ConsoleError [Str ''Error retrieving Jira cards from the release:'', Str (message e)]],
     w')"
  shows "displayReleaseDetails P E w = out"
    and "createReleaseBranches P E w = out"
    and "createReleasePRs P E w = out"
proof -
  have J: "getJiraCardsFromRelease P E w =
         (Inr None,
          [Call (SearchJira (release_jql P)) (Failure e),
           ConsoleError [Str ''Error retrieving Jira cards from the release:'', Str (message e)]],
          w')"
    using assms(1) by (cases rule: getJiraCards_cases [of P E w]) simp_all
  show "displayReleaseDetails P E w = out"
    by (simp add: displayReleaseDetails_def await_alt J throw_def out_def)
  show "createReleaseBranches P E w = out"
    by (simp add: createReleaseBranches_def await_alt J getReposFromRelease_def throw_def out_def)
  show "createReleasePRs P E w = out"
    by (simp add: createReleasePRs_def await_alt J getReposFromRelease_def throw_def out_def)
qed

lemma issuePullRequests_cases [case_names fail empty ok]:
  obtains (fail) e w' where
      "issuePullRequests E i w =
         (Inl e, [Call (GenericGet (detail_path (issue_id i))) (Failure e)], w')"
    | (empty) d w' where
      "issuePullRequests E i w =
         (Inl (TypeError ''pullRequests''), [Call (GenericGet (detail_path (issue_id i))) (Detail d)], w')"
      "detail d = []"
    | (ok) d entry more w' where
      "issuePullRequests E i w =
         (Inr (pullRequests entry), [Call (GenericGet (detail_path (issue_id i))) (Detail d)], w')"
      "detail d = entry # more"
proof (cases "genericGet E (detail_path (issue_id i)) w")
  case (Pair a w')
  show ?thesis
  proof (cases a)
    case (Inl e)
    with Pair show ?thesis
      by (intro fail [of e w'])
         (simp add: issuePullRequests_def getPRsFromJira_def await_alt perform_def Let_def
                    detail_path_def)
  next
    case (Inr d)
    show ?thesis
    proof (cases "detail d")
      case Nil
      with Pair Inr show ?thesis
        by (intro empty [of d w'])
           (simp_all add: issuePullRequests_def getPRsFromJira_def await_alt perform_def Let_def
                      detail_path_def at_index_def throw_def)
    next
      case (Cons entry more)
      with Pair Inr show ?thesis
        by (intro ok [of entry d w' more])
           (simp_all add: issuePullRequests_def getPRsFromJira_def await_alt perform_def Let_def
                      detail_path_def at_index_def ret_def)
    qed
  qed
qed

lemma getRepos_loop_summary:
  "git_events (trace_of (getRepos_loop E is acc w)) = [] \<and>
   post_events (trace_of (getRepos_loop E is acc w)) = [] \<and>
   (\<forall>e \<in> set (detail_failures (trace_of (getRepos_loop E is acc w))).
      result_of (getRepos_loop E is acc w) = Inl e)"
proof (induction "is" arbitrary: acc w)
  case Nil
  show ?case by (simp add: ret_def)
next
  case (Cons i rest)
  show ?case
  proof (cases rule: issuePullRequests_cases [of E i w])
    case (fail e w')
    then show ?thesis by (simp add: await_alt)
  next
    case (empty d w')
    then show ?thesis by (simp add: await_alt)
  next
    case (ok d entry more w')
    then show ?thesis using Cons.IH by (simp add: await_alt)
  qed
qed

lemma getRepos_loop_collect:
  "getRepos_loop E is acc w =
     (case collectPullRequests E is w of
        (Inl e, t, w') \<Rightarrow> (Inl e, t, w')
      | (Inr prss, t, w') \<Rightarrow>
          (Inr (acc @ concat (map (\<lambda>prs. uniq (map repositoryName prs)) prss)), t, w'))"
proof (induction "is" arbitrary: acc w)
  case Nil
  show ?case by (simp add: ret_def)
next
  case (Cons i rest)
  show ?case
  proof (cases rule: task_cases [of "issuePullRequests E i" w])
    case (fail e t w')
    then show ?thesis by (simp add: await_alt)
  next
    case (ok prs t w')
    show ?thesis
    proof (cases rule: task_cases [of "collectPullRequests E rest" w'])
      case (fail e t' w'')
      with ok show ?thesis by (simp add: await_alt Cons.IH)
    next
      case inner: (ok prss t' w'')
      with ok show ?thesis by (simp add: await_alt Cons.IH ret_def)
    qed
  qed
qed

lemma getReposFromRelease_collect:
  "getReposFromRelease E (Some r) w =
     (case collectPullRequests E (issues r) w of
        (Inl e, t, w') \<Rightarrow> (Inl e, t, w')
      | (Inr prss, t, w') \<Rightarrow>
          (Inr (uniq (concat (map (\<lambda>prs. uniq (map repositoryName prs)) prss))), t, w'))"
  by (cases rule: task_cases [of "collectPullRequests E (issues r)" w])
     (simp_all add: getReposFromRelease_def await_alt getRepos_loop_collect ret_def)

lemma getReposFromRelease_summary:
  "git_events (trace_of (getReposFromRelease E release w)) = [] \<and>
   post_events (trace_of (getReposFromRelease E release w)) = [] \<and>
   (\<forall>e \<in> set (detail_failures (trace_of (getReposFromRelease E release w))).
      result_of (getReposFromRelease E release w) = Inl e)"
proof (cases release)
  case None
  then show ?thesis by (simp add: getReposFromRelease_def throw_def)
next
  case (Some r)
  show ?thesis
  proof (cases rule: task_cases [of "getRepos_loop E (issues r) []" w])
    case (fail e t w')
    with getRepos_loop_summary [of E "issues r" "[]" w] Some show ?thesis
      by (simp add: getReposFromRelease_def await_alt)
  next
    case (ok repos t w')
    with getRepos_loop_summary [of E "issues r" "[]" w] Some show ?thesis
      by (simp add: getReposFromRelease_def await_alt ret_def)
  qed
qed

subsection \<open>The Branch Operator\<close>

lemma git_cases [case_names fail ok]:
  obtains (fail) e w' where "git E d c w = (Inl e, [Call (Git d c) (Failure e)], w')"
        | (ok) w' where "git E d c w = (Inr (), [Call (Git d c) Done], w')"
  by (cases "git_run E d c w"; case_tac a) (auto simp: git_def perform_def)

lemma run_steps_follows:
  "\<exists>calls. trace_of (run_steps E d cs w) = git_trace d calls \<and>
           follows cs calls (result_of (run_steps E d cs w))"
proof (induction cs arbitrary: w)
  case Nil
  show ?case by (rule exI [of _ "[]"]) (simp add: ret_def git_trace_def run_steps.simps)
next
  case (Cons c cs)
  show ?case
  proof (cases rule: git_cases [of E d c w])
    case (fail e w')
    show ?thesis
      by (rule exI [of _ "[(c, Failure e)]"]) (simp add: await_alt fail git_trace_def run_steps.simps)
  next
    case (ok w')
    from Cons.IH [of w'] obtain calls where
      c: "trace_of (run_steps E d cs w') = git_trace d calls"
         "follows cs calls (result_of (run_steps E d cs w'))" by blast
    show ?thesis
      by (rule exI [of _ "(c, Done) # calls"]) (simp add: await_alt ok c git_trace_def run_steps.simps)
  qed
qed

lemma checkoutBranch_steps:
  "checkoutBranch P E repository b =
     await (stashChangesIfNeeded E (REPO_BASE_PATH P @ repository))
       (\<lambda>_. run_steps E (REPO_BASE_PATH P @ repository)
               [Fetch, Checkout ''dev'', Pull, CheckoutLocalBranch b, Push ''origin'' b []])"
  by (simp add: checkoutBranch_def Let_def await_unit)

declare run_steps.simps [simp del]

lemma stash_cases [case_names fail clean stash_fail stashed]:
  obtains (fail) e w' where
      "stashChangesIfNeeded E d w = (Inl e, [Call (Git d Status) (Failure e)], w')"
    | (clean) w' where
      "stashChangesIfNeeded E d w = (Inr (), [Call (Git d Status) (IsClean True)], w')"
    | (stash_fail) e w' where
      "stashChangesIfNeeded E d w =
         (Inl e, [Call (Git d Status) (IsClean False),
                  ConsoleLog [Str ''Stashing uncommitted changes...''],
                  Call (Git d Stash) (Failure e)], w')"
    | (stashed) w' where
      "stashChangesIfNeeded E d w =
         (Inr (), [Call (Git d Status) (IsClean False),
                   ConsoleLog [Str ''Stashing uncommitted changes...''],
                   Call (Git d Stash) Done], w')"
proof (cases "git_status E d w")
  case (Pair a w1)
  show ?thesis
  proof (cases a)
    case (Inl e)
    with Pair show ?thesis
      by (intro fail [of e w1]) (simp add: stashChangesIfNeeded_def await_alt perform_def)
  next
    case (Inr isClean)
    show ?thesis
    proof (cases isClean)
      case True
      with Pair Inr show ?thesis
        by (intro clean [of w1]) (simp add: stashChangesIfNeeded_def await_alt perform_def ret_def)
    next
      case False
      show ?thesis
      proof (cases rule: git_cases [of E d Stash w1])
        case (fail e w')
        with Pair Inr False show ?thesis
          by (intro stash_fail [of e w'])
             (simp add: stashChangesIfNeeded_def await_alt perform_def console_log_def)
      next
        case (ok w')
        with Pair Inr False show ?thesis
          by (intro stashed [of w'])
             (simp add: stashChangesIfNeeded_def await_alt perform_def console_log_def)
      qed
    qed
  qed
qed

lemma follows_fail_first [simp]: "follows (c # cs) [(c, Failure e)] (Inl e)"
  by simp

lemma follows_Done [simp]: "follows (c # cs) ((c, Done) # calls) res = follows cs calls res"
  by simp

lemma checkoutBranch_trace:
  "\<exists>calls. branch_sequence b calls (result_of (checkoutBranch P E repository b w)) \<and>
           trace_of (checkoutBranch P E repository b w)
             = branch_trace (REPO_BASE_PATH P @ repository) calls"
proof -
  let ?d = "REPO_BASE_PATH P @ repository"
  let ?cs = "[Fetch, Checkout ''dev'', Pull, CheckoutLocalBranch b, Push ''origin'' b []]"
  show ?thesis
  proof (cases rule: stash_cases [of E ?d w])
    case (fail e w')
    show ?thesis
      by (rule exI [of _ "[(Status, Failure e)]"])
         (simp add: checkoutBranch_steps await_alt fail branch_sequence_def branch_trace_def)
  next
    case (clean w')
    obtain calls where
      c: "trace_of (run_steps E ?d ?cs w') = git_trace ?d calls"
         "follows ?cs calls (result_of (run_steps E ?d ?cs w'))"
      using run_steps_follows [of E ?d ?cs w'] by blast
    show ?thesis
      by (rule exI [of _ "(Status, IsClean True) # calls"])
         (simp add: checkoutBranch_steps await_alt clean c branch_sequence_def branch_trace_def
                    branch_steps_def)
  next
    case (stash_fail e w')
    show ?thesis
      by (rule exI [of _ "[(Status, IsClean False), (Stash, Failure e)]"])
         (simp add: checkoutBranch_steps await_alt stash_fail branch_sequence_def
                    branch_trace_def branch_steps_def stash_notice_def)
  next
    case (stashed w')
    obtain calls where
      c: "trace_of (run_steps E ?d ?cs w') = git_trace ?d calls"
         "follows ?cs calls (result_of (run_steps E ?d ?cs w'))"
      using run_steps_follows [of E ?d ?cs w'] by blast
    show ?thesis
      by (rule exI [of _ "(Status, IsClean False) # (Stash, Done) # calls"])
         (simp add: checkoutBranch_steps await_alt stashed c branch_sequence_def
                    branch_trace_def branch_steps_def stash_notice_def)
  qed
qed

lemma follows_facts:
  "follows cs calls res \<Longrightarrow>
     set (map fst calls) \<subseteq> set cs \<and>
     concat (map (\<lambda>(c, r). failure_of r) calls) = (case res of Inl e \<Rightarrow> [e] | Inr _ \<Rightarrow> [])"
  by (induction cs calls res rule: follows.induct) auto

lemma branch_sequence_facts:
  assumes "branch_sequence b calls res"
  shows "calls \<noteq> []"
    and "filter (\<lambda>(c, r). c = Status) calls = [hd calls]"
    and "concat (map (\<lambda>(c, r). failure_of r) calls) = (case res of Inl e \<Rightarrow> [e] | Inr _ \<Rightarrow> [])"
    and "set (concat (map (\<lambda>(c, r). branch_named c) calls)) \<subseteq> {b}"
    and "set (map fst calls) \<subseteq> {Status, Stash, Fetch, Checkout ''dev'', Pull,
           CheckoutLocalBranch b, Push ''origin'' b []}"
proof -
  from assms obtain r rest where calls: "calls = (Status, r) # rest"
    by (auto simp: branch_sequence_def split: list.splits)
  show "calls \<noteq> []" using calls by simp
  have rest: "(\<exists>e. r = Failure e \<and> rest = [] \<and> res = Inl e) \<or>
              (\<exists>isClean. r = IsClean isClean \<and> follows (branch_steps isClean b) rest res)"
    using assms calls by (auto simp: branch_sequence_def split: reply.splits)
  have sub: "set (map fst rest) \<subseteq> {Stash, Fetch, Checkout ''dev'', Pull,
                 CheckoutLocalBranch b, Push ''origin'' b []}"
    using rest
  proof (elim disjE exE conjE)
    fix e assume "rest = []"
    then show ?thesis by simp
  next
    fix isClean assume "follows (branch_steps isClean b) rest res"
    from follows_facts [OF this]
    have "set (map fst rest) \<subseteq> set (branch_steps isClean b)" by blast
    then show ?thesis by (cases isClean) (auto simp: branch_steps_def)
  qed
  have "filter (\<lambda>(c, r). c = Status) rest = []"
    using sub by (auto simp: filter_empty_conv)
  then show "filter (\<lambda>(c, r). c = Status) calls = [hd calls]"
    using calls by simp
  show "concat (map (\<lambda>(c, r). failure_of r) calls) = (case res of Inl e \<Rightarrow> [e] | Inr _ \<Rightarrow> [])"
    using rest calls by (auto dest!: follows_facts)
  have "\<forall>x \<in> set rest. set (branch_named (fst x)) \<subseteq> {b}"
    using sub by auto
  then show "set (concat (map (\<lambda>(c, r). branch_named c) calls)) \<subseteq> {b}"
    using calls by (auto simp: case_prod_beta)
  show "set (map fst calls) \<subseteq> {Status, Stash, Fetch, Checkout ''dev'', Pull,
           CheckoutLocalBranch b, Push ''origin'' b []}"
    using sub calls by auto
qed

lemma checkoutBranch_facts:
  fixes P E repo b w
  defines "tr \<equiv> trace_of (checkoutBranch P E repo b w)"
  shows "status_dirs tr = [REPO_BASE_PATH P @ repo]"
    and "fst ` set (git_events tr) = {REPO_BASE_PATH P @ repo}"
    and "post_events tr = []"
    and "detail_failures tr = []"
    and "git_failures tr =
           (case result_of (checkoutBranch P E repo b w) of
              Inl e \<Rightarrow> [(REPO_BASE_PATH P @ repo, e)] | Inr _ \<Rightarrow> [])"
    and "set (branches_used tr) \<subseteq> {b}"
proof -
  let ?d = "REPO_BASE_PATH P @ repo"
  obtain calls where
    seq: "branch_sequence b calls (result_of (checkoutBranch P E repo b w))" and
    tr: "tr = branch_trace ?d calls"
    using checkoutBranch_trace [of b P E repo w] unfolding tr_def by blast
  note f = branch_sequence_facts [OF seq]
  have ge: "git_events tr = map (\<lambda>(c, r). (?d, c, r)) calls"
    by (simp add: tr)
  have "filter (\<lambda>(d, c, r). c = Status) (map (\<lambda>(c, r). (?d, c, r)) calls)
          = map (\<lambda>(c, r). (?d, c, r)) (filter (\<lambda>(c, r). c = Status) calls)"
    by (induction calls) auto
  then show "status_dirs tr = [?d]"
    using f(1) by (simp add: status_dirs_def ge f(2) case_prod_beta)
  show "fst ` set (git_events tr) = {?d}"
    using f(1) by (cases calls) (auto simp: ge)
  show "post_events tr = []" "detail_failures tr = []"
    by (simp_all add: tr)
  have "concat (map (\<lambda>(d, c, r). map (Pair d) (failure_of r)) (map (\<lambda>(c, r). (?d, c, r)) calls))
          = map (Pair ?d) (concat (map (\<lambda>(c, r). failure_of r) calls))"
    by (induction calls) auto
  then show "git_failures tr =
           (case result_of (checkoutBranch P E repo b w) of
              Inl e \<Rightarrow> [(?d, e)] | Inr _ \<Rightarrow> [])"
    by (simp add: git_failures_def ge f(3) split: sum.splits)
  have "concat (map (\<lambda>(d, c, r). branch_named c) (map (\<lambda>(c, r). (?d, c, r)) calls))
          = concat (map (\<lambda>(c, r). branch_named c) calls)"
    by (induction calls) auto
  then show "set (branches_used tr) \<subseteq> {b}"
    using f(4) by (simp add: branches_used_def ge)
qed

subsection \<open>The batch of release branches\<close>

lemma branches_loop_skip:
  "\<not> whitelisted repo \<Longrightarrow>
   branches_loop P E (repo # rest) w =
     (result_of (branches_loop P E rest w),
      [branch_skip_notice repo, ConsoleLog []] @ trace_of (branches_loop P E rest w),
      world_of (branches_loop P E rest w))"
  by (simp add: whitelisted_def await_alt console_log_def branch_skip_notice_def)

lemma branches_loop_act:
  assumes "whitelisted repo"
  shows "branches_loop P E (repo # rest) w =
     (result_of (branches_loop P E rest (world_of (checkoutBranch P E repo (releaseBranchName P) w))),
      [branch_start_notice P repo]
        @ trace_of (checkoutBranch P E repo (releaseBranchName P) w)
        @ [branch_end_notice repo (result_of (checkoutBranch P E repo (releaseBranchName P) w)),
           ConsoleLog []]
        @ trace_of (branches_loop P E rest (world_of (checkoutBranch P E repo (releaseBranchName P) w))),
      world_of (branches_loop P E rest (world_of (checkoutBranch P E repo (releaseBranchName P) w))))"
proof (cases rule: task_cases [of "checkoutBranch P E repo (releaseBranchName P)" w])
  case (fail e t w')
  with assms show ?thesis
    by (simp add: whitelisted_def await_alt try_catch_alt console_log_def console_error_def
                  branch_start_notice_def branch_end_notice_def branch_error_notice_def
                  squote_def)
next
  case (ok x t w')
  with assms show ?thesis
    by (simp add: whitelisted_def await_alt try_catch_alt console_log_def console_error_def
                  branch_start_notice_def branch_end_notice_def branch_done_notice_def
                  squote_def)
qed

declare branches_loop.simps(2) [simp del]

lemma branches_loop_result: "result_of (branches_loop P E repos w) = Inr ()"
proof (induction repos arbitrary: w)
  case Nil
  show ?case by (simp add: ret_def)
next
  case (Cons repo rest)
  show ?case
    by (cases "whitelisted repo") (simp_all add: branches_loop_skip branches_loop_act Cons.IH)
qed

lemma branches_loop_status:
  "status_dirs (trace_of (branches_loop P E repos w))
     = map (working_copy P) (filter whitelisted repos)"
proof (induction repos arbitrary: w)
  case Nil
  show ?case by (simp add: ret_def)
next
  case (Cons repo rest)
  show ?case
    by (cases "whitelisted repo")
       (simp_all add: branches_loop_skip branches_loop_act Cons.IH checkoutBranch_facts
                      working_copy_def)
qed

lemma branches_loop_dirs:
  "fst ` set (git_events (trace_of (branches_loop P E repos w)))
     = working_copy P ` {repo \<in> set repos. whitelisted repo}"
proof (induction repos arbitrary: w)
  case Nil
  show ?case by (simp add: ret_def)
next
  case (Cons repo rest)
  show ?case
  proof (cases "whitelisted repo")
    case True
    then show ?thesis
      by (auto simp: branches_loop_act Cons.IH checkoutBranch_facts working_copy_def image_Un)
  next
    case False
    then show ?thesis
      by (auto simp: branches_loop_skip Cons.IH)
  qed
qed

lemma branches_loop_quiet:
  "post_events (trace_of (branches_loop P E repos w)) = [] \<and>
   detail_failures (trace_of (branches_loop P E repos w)) = []"
proof (induction repos arbitrary: w)
  case Nil
  show ?case by (simp add: ret_def)
next
  case (Cons repo rest)
  show ?case
    by (cases "whitelisted repo")
       (simp_all add: branches_loop_skip branches_loop_act Cons.IH checkoutBranch_facts)
qed

lemma branches_loop_branch:
  "set (branches_used (trace_of (branches_loop P E repos w))) \<subseteq> {releaseBranchName P}"
proof (induction repos arbitrary: w)
  case Nil
  show ?case by (simp add: ret_def)
next
  case (Cons repo rest)
  show ?case
    by (cases "whitelisted repo")
       (simp_all add: branches_loop_skip branches_loop_act Cons.IH checkoutBranch_facts)
qed

lemma branches_loop_skips:
  "repo \<in> set repos \<Longrightarrow> \<not> whitelisted repo \<Longrightarrow>
   branch_skip_notice repo \<in> set (trace_of (branches_loop P E repos w))"
proof (induction repos arbitrary: w)
  case Nil
  then show ?case by simp
next
  case (Cons r rest)
  then show ?case
    by (cases "whitelisted r") (auto simp: branches_loop_skip branches_loop_act)
qed

lemma branches_loop_failures:
  "(d, e) \<in> set (git_failures (trace_of (branches_loop P E repos w))) \<Longrightarrow>
   \<exists>repo \<in> set repos. whitelisted repo \<and> d = working_copy P repo \<and>
      branch_error_notice repo e \<in> set (trace_of (branches_loop P E repos w))"
proof (induction repos arbitrary: w)
  case Nil
  then show ?case by (simp add: ret_def)
next
  case (Cons r rest)
  show ?case
  proof (cases "whitelisted r")
    case False
    with Cons.prems have
      "(d, e) \<in> set (git_failures (trace_of (branches_loop P E rest w)))"
      by (simp add: branches_loop_skip)
    from Cons.IH [OF this] False show ?thesis
      by (auto simp: branches_loop_skip)
  next
    case True
    let ?out = "checkoutBranch P E r (releaseBranchName P) w"
    from Cons.prems True have
      "(d, e) \<in> set (git_failures (trace_of ?out)) \<or>
       (d, e) \<in> set (git_failures (trace_of (branches_loop P E rest (world_of ?out))))"
      by (auto simp: branches_loop_act)
    then show ?thesis
    proof
      assume "(d, e) \<in> set (git_failures (trace_of ?out))"
      then have "result_of ?out = Inl e" "d = working_copy P r"
        by (auto simp: checkoutBranch_facts(5) working_copy_def split: sum.splits)
      with True show ?thesis
        by (auto simp: branches_loop_act branch_end_notice_def)
    next
      assume "(d, e) \<in> set (git_failures (trace_of (branches_loop P E rest (world_of ?out))))"
      from Cons.IH [OF this] True show ?thesis
        by (auto simp: branches_loop_act)
    qed
  qed
qed

lemma branches_loop_runs:
  "\<exists>runs. map fst runs = filter whitelisted repos \<and>
          git_events (trace_of (branches_loop P E repos w)) = runs_events P runs \<and>
          (\<forall>(repo, calls) \<in> set runs.
             \<exists>res. branch_sequence (releaseBranchName P) calls res)"
proof (induction repos arbitrary: w)
  case Nil
  show ?case by (rule exI [of _ "[]"]) (simp add: ret_def runs_events_def)
next
  case (Cons repo rest)
  show ?case
  proof (cases "whitelisted repo")
    case False
    from Cons.IH [of w] obtain runs where
      "map fst runs = filter whitelisted rest"
      "git_events (trace_of (branches_loop P E rest w)) = runs_events P runs"
      "\<forall>(repo, calls) \<in> set runs. \<exists>res. branch_sequence (releaseBranchName P) calls res"
      by blast
    with False show ?thesis
      by (intro exI [of _ runs]) (simp add: branches_loop_skip)
  next
    case True
    let ?out = "checkoutBranch P E repo (releaseBranchName P) w"
    obtain calls where
      seq: "branch_sequence (releaseBranchName P) calls (result_of ?out)" and
      tr: "trace_of ?out = branch_trace (REPO_BASE_PATH P @ repo) calls"
      using checkoutBranch_trace [of "releaseBranchName P" P E repo w] by blast
    from Cons.IH [of "world_of ?out"] obtain runs where
      runs: "map fst runs = filter whitelisted rest"
      "git_events (trace_of (branches_loop P E rest (world_of ?out))) = runs_events P runs"
      "\<forall>(repo, calls) \<in> set runs. \<exists>res. branch_sequence (releaseBranchName P) calls res"
      by blast
    from True seq runs show ?thesis
      by (intro exI [of _ "(repo, calls) # runs"])
         (auto simp: branches_loop_act tr runs_events_def working_copy_def)
  qed
qed

subsection \<open>The Pull Request Operator and its batch\<close>

lemma api_url:
  "replace ''REPO_SLUG'' repo BITBUCKET_API_URL @ ''pullrequests'' = pr_url repo"
  by (simp add: BITBUCKET_API_URL_def BITBUCKET_WORKSPACE_def pr_url_def)

lemma createBitbucketPr_cases [case_names fail ok]:
  obtains (fail) e w' where
      "createBitbucketPr P E repo w =
         (Inl e,
          [Call (AxiosPost (pr_url repo) (BITBUCKET_API_CREATE_PR_REQUEST_DATA P) (credentials P))
             (Failure e)], w')"
    | (ok) w' where
      "createBitbucketPr P E repo w =
         (Inr (),
          [Call (AxiosPost (pr_url repo) (BITBUCKET_API_CREATE_PR_REQUEST_DATA P) (credentials P))
             Done], w')"
proof (cases "axios_post E (pr_url repo) (BITBUCKET_API_CREATE_PR_REQUEST_DATA P) (credentials P) w")
  case (Pair a w')
  show ?thesis
  proof (cases a)
    case (Inl e)
    with Pair show ?thesis
      by (intro fail [of e w'])
         (simp add: createBitbucketPr_def api_url Let_def perform_def credentials_def)
  next
    case (Inr u)
    with Pair show ?thesis
      by (intro ok [of w'])
         (simp add: createBitbucketPr_def api_url Let_def perform_def credentials_def)
  qed
qed

lemma createBitbucketPr_facts:
  fixes P E repo w
  defines "tr \<equiv> trace_of (createBitbucketPr P E repo w)"
  shows "map (\<lambda>(u, d, a, r). (u, d, a)) (post_events tr)
           = [(pr_url repo, BITBUCKET_API_CREATE_PR_REQUEST_DATA P, credentials P)]"
    and "git_events tr = []"
    and "detail_failures tr = []"
    and "post_failures tr =
           (case result_of (createBitbucketPr P E repo w) of
              Inl e \<Rightarrow> [(pr_url repo, e)] | Inr _ \<Rightarrow> [])"
  unfolding tr_def
  by (cases rule: createBitbucketPr_cases [of P E repo w]; simp add: post_failures_def)+

lemma prs_loop_skip:
  "\<not> whitelisted repo \<Longrightarrow>
   prs_loop P E (repo # rest) w =
     (result_of (prs_loop P E rest w),
      [pr_skip_notice repo, ConsoleLog []] @ trace_of (prs_loop P E rest w),
      world_of (prs_loop P E rest w))"
  by (simp add: whitelisted_def await_alt console_log_def pr_skip_notice_def)

lemma prs_loop_act:
  assumes "whitelisted repo"
  shows "prs_loop P E (repo # rest) w =
     (result_of (prs_loop P E rest (world_of (createBitbucketPr P E repo w))),
      [pr_start_notice repo]
        @ trace_of (createBitbucketPr P E repo w)
        @ [pr_end_notice repo (result_of (createBitbucketPr P E repo w)), ConsoleLog []]
        @ trace_of (prs_loop P E rest (world_of (createBitbucketPr P E repo w))),
      world_of (prs_loop P E rest (world_of (createBitbucketPr P E repo w))))"
proof (cases rule: task_cases [of "createBitbucketPr P E repo" w])
  case (fail e t w')
  with assms show ?thesis
    by (simp add: whitelisted_def await_alt try_catch_alt console_log_def console_error_def
                  pr_start_notice_def pr_end_notice_def pr_error_notice_def squote_def)
next
  case (ok x t w')
  with assms show ?thesis
    by (simp add: whitelisted_def await_alt try_catch_alt console_log_def console_error_def
                  pr_start_notice_def pr_end_notice_def pr_done_notice_def squote_def)
qed

declare prs_loop.simps(2) [simp del]

lemma prs_loop_result: "result_of (prs_loop P E repos w) = Inr ()"
proof (induction repos arbitrary: w)
  case Nil
  show ?case by (simp add: ret_def)
next
  case (Cons repo rest)
  show ?case
    by (cases "whitelisted repo") (simp_all add: prs_loop_skip prs_loop_act Cons.IH)
qed

lemma prs_loop_posts:
  "map (\<lambda>(u, d, a, r). (u, d, a)) (post_events (trace_of (prs_loop P E repos w)))
     = map (\<lambda>repo. (pr_url repo, BITBUCKET_API_CREATE_PR_REQUEST_DATA P, credentials P))
         (filter whitelisted repos)"
proof (induction repos arbitrary: w)
  case Nil
  show ?case by (simp add: ret_def)
next
  case (Cons repo rest)
  show ?case
    by (cases "whitelisted repo")
       (simp_all add: prs_loop_skip prs_loop_act Cons.IH createBitbucketPr_facts)
qed

lemma prs_loop_urls:
  "map fst (post_events (trace_of (prs_loop P E repos w))) = map pr_url (filter whitelisted repos)"
proof -
  have "map fst (post_events (trace_of (prs_loop P E repos w)))
          = map fst (map (\<lambda>(u, d, a, r). (u, d, a)) (post_events (trace_of (prs_loop P E repos w))))"
    by (simp add: case_prod_beta comp_def)
  also have "\<dots> = map pr_url (filter whitelisted repos)"
    unfolding prs_loop_posts by (simp add: comp_def)
  finally show ?thesis .
qed

lemma prs_loop_quiet:
  "git_events (trace_of (prs_loop P E repos w)) = [] \<and>
   detail_failures (trace_of (prs_loop P E repos w)) = []"
proof (induction repos arbitrary: w)
  case Nil
  show ?case by (simp add: ret_def)
next
  case (Cons repo rest)
  show ?case
    by (cases "whitelisted repo")
       (simp_all add: prs_loop_skip prs_loop_act Cons.IH createBitbucketPr_facts)
qed

lemma prs_loop_skips:
  "repo \<in> set repos \<Longrightarrow> \<not> whitelisted repo \<Longrightarrow>
   pr_skip_notice repo \<in> set (trace_of (prs_loop P E repos w))"
proof (induction repos arbitrary: w)
  case Nil
  then show ?case by simp
next
  case (Cons r rest)
  then show ?case
    by (cases "whitelisted r") (auto simp: prs_loop_skip prs_loop_act)
qed

lemma prs_loop_failures:
  "(u, e) \<in> set (post_failures (trace_of (prs_loop P E repos w))) \<Longrightarrow>
   \<exists>repo \<in> set repos. whitelisted repo \<and> u = pr_url repo \<and>
      pr_error_notice repo e \<in> set (trace_of (prs_loop P E repos w))"
proof (induction repos arbitrary: w)
  case Nil
  then show ?case by (simp add: ret_def)
next
  case (Cons r rest)
  show ?case
  proof (cases "whitelisted r")
    case False
    with Cons.prems have
      "(u, e) \<in> set (post_failures (trace_of (prs_loop P E rest w)))"
      by (simp add: prs_loop_skip)
    from Cons.IH [OF this] False show ?thesis
      by (auto simp: prs_loop_skip)
  next
    case True
    let ?out = "createBitbucketPr P E r w"
    from Cons.prems True have
      "(u, e) \<in> set (post_failures (trace_of ?out)) \<or>
       (u, e) \<in> set (post_failures (trace_of (prs_loop P E rest (world_of ?out))))"
      by (auto simp: prs_loop_act)
    then show ?thesis
    proof
      assume "(u, e) \<in> set (post_failures (trace_of ?out))"
      then have "result_of ?out = Inl e" "u = pr_url r"
        by (auto simp: createBitbucketPr_facts(4) split: sum.splits)
      with True show ?thesis
        by (auto simp: prs_loop_act pr_end_notice_def)
    next
      assume "(u, e) \<in> set (post_failures (trace_of (prs_loop P E rest (world_of ?out))))"
      from Cons.IH [OF this] True show ?thesis
        by (auto simp: prs_loop_act)
    qed
  qed
qed

subsection \<open>The entry points\<close>

lemma createReleaseBranches_resolved:
  assumes "getJiraCardsFromRelease P E w = (Inr release, t0, w0)"
      and "getReposFromRelease E release w0 = (Inr repos, t1, w1)"
  shows "createReleaseBranches P E w =
           (result_of (branches_loop P E repos w1),
            t0 @ t1 @ trace_of (branches_loop P E repos w1),
            world_of (branches_loop P E repos w1))"
  using assms by (simp add: createReleaseBranches_def await_alt)

lemma createReleaseBranches_unresolved:
  assumes "getJiraCardsFromRelease P E w = (Inr release, t0, w0)"
      and "getReposFromRelease E release w0 = (Inl e, t1, w1)"
  shows "createReleaseBranches P E w = (Inl e, t0 @ t1, w1)"
  using assms by (simp add: createReleaseBranches_def await_alt)

lemma createReleasePRs_resolved:
  assumes "getJiraCardsFromRelease P E w = (Inr release, t0, w0)"
      and "getReposFromRelease E release w0 = (Inr repos, t1, w1)"
  shows "createReleasePRs P E w =
           (result_of (prs_loop P E repos w1),
            t0 @ t1 @ trace_of (prs_loop P E repos w1),
            world_of (prs_loop P E repos w1))"
  using assms by (simp add: createReleasePRs_def await_alt)

lemma createReleasePRs_unresolved:
  assumes "getJiraCardsFromRelease P E w = (Inr release, t0, w0)"
      and "getReposFromRelease E release w0 = (Inl e, t1, w1)"
  shows "createReleasePRs P E w = (Inl e, t0 @ t1, w1)"
  using assms by (simp add: createReleasePRs_def await_alt)

lemma createReleaseBranches_cases [case_names unresolved resolved]:
  obtains (unresolved) e t w' where
      "createReleaseBranches P E w = (Inl e, t, w')"
      "git_events t = []" "post_events t = []"
    | (resolved) release t0 w0 repos t1 w1 where
      "getJiraCardsFromRelease P E w = (Inr release, t0, w0)"
      "getReposFromRelease E release w0 = (Inr repos, t1, w1)"
      "createReleaseBranches P E w =
         (result_of (branches_loop P E repos w1),
          t0 @ t1 @ trace_of (branches_loop P E repos w1),
          world_of (branches_loop P E repos w1))"
      "git_events (t0 @ t1) = []" "post_events (t0 @ t1) = []"
proof -
  obtain release t0 w0 where J: "getJiraCardsFromRelease P E w = (Inr release, t0, w0)"
    using getJiraCards_summary [of P E w]
    by (cases "getJiraCardsFromRelease P E w") auto
  have t0: "git_events t0 = []" "post_events t0 = []"
    using getJiraCards_summary [of P E w] J by simp_all
  note R = getReposFromRelease_summary [of E release w0]
  show ?thesis
  proof (cases rule: task_cases [of "getReposFromRelease E release" w0])
    case (fail e t1 w1)
    with R t0 show ?thesis
      by (intro unresolved [of e "t0 @ t1" w1])
         (simp_all add: createReleaseBranches_unresolved [OF J fail])
  next
    case (ok repos t1 w1)
    with R t0 show ?thesis
      by (intro resolved [OF J ok]) (simp_all add: createReleaseBranches_resolved [OF J ok])
  qed
qed

lemma createReleasePRs_cases [case_names unresolved resolved]:
  obtains (unresolved) e t w' where
      "createReleasePRs P E w = (Inl e, t, w')"
      "git_events t = []" "post_events t = []"
    | (resolved) release t0 w0 repos t1 w1 where
      "getJiraCardsFromRelease P E w = (Inr release, t0, w0)"
      "getReposFromRelease E release w0 = (Inr repos, t1, w1)"
      "createReleasePRs P E w =
         (result_of (prs_loop P E repos w1),
          t0 @ t1 @ trace_of (prs_loop P E repos w1),
          world_of (prs_loop P E repos w1))"
      "git_events (t0 @ t1) = []" "post_events (t0 @ t1) = []"
proof -
  obtain release t0 w0 where J: "getJiraCardsFromRelease P E w = (Inr release, t0, w0)"
    using getJiraCards_summary [of P E w]
    by (cases "getJiraCardsFromRelease P E w") auto
  have t0: "git_events t0 = []" "post_events t0 = []"
    using getJiraCards_summary [of P E w] J by simp_all
  note R = getReposFromRelease_summary [of E release w0]
  show ?thesis
  proof (cases rule: task_cases [of "getReposFromRelease E release" w0])
    case (fail e t1 w1)
    with R t0 show ?thesis
      by (intro unresolved [of e "t0 @ t1" w1])
         (simp_all add: createReleasePRs_unresolved [OF J fail])
  next
    case (ok repos t1 w1)
    with R t0 show ?thesis
      by (intro resolved [OF J ok]) (simp_all add: createReleasePRs_resolved [OF J ok])
  qed
qed

lemma inj_working_copy: "working_copy P a = working_copy P b \<longleftrightarrow> a = b"
  by (simp add: working_copy_def)

lemma inj_pr_url: "pr_url a = pr_url b \<longleftrightarrow> a = b"
  by (simp add: pr_url_def)

lemma acted_when_resolved:
  assumes "getJiraCardsFromRelease P E w = (Inr (Some r), t0, w0)"
      and "collectPullRequests E (issues r) w0 = (Inr prss, t1, w1)"
  shows "fst ` set (git_events (trace_of (createReleaseBranches P E w)))
           = working_copy P ` (referenced_repos prss \<inter> set WHITELISTED_REPOS) \<and>
         fst ` set (post_events (trace_of (createReleasePRs P E w)))
           = pr_url ` (referenced_repos prss \<inter> set WHITELISTED_REPOS) \<and>
         (\<forall>repo \<in> referenced_repos prss - set WHITELISTED_REPOS.
            branch_skip_notice repo \<in> set (trace_of (createReleaseBranches P E w)) \<and>
            working_copy P repo \<notin> fst ` set (git_events (trace_of (createReleaseBranches P E w))) \<and>
            pr_skip_notice repo \<in> set (trace_of (createReleasePRs P E w)) \<and>
            pr_url repo \<notin> fst ` set (post_events (trace_of (createReleasePRs P E w)))) \<and>
         post_events (trace_of (createReleaseBranches P E w)) = [] \<and>
         git_events (trace_of (createReleasePRs P E w)) = []"
proof -
  let ?repos = "uniq (concat (map (\<lambda>prs. uniq (map repositoryName prs)) prss))"
  let ?acted = "referenced_repos prss \<inter> set WHITELISTED_REPOS"
  have R: "getReposFromRelease E (Some r) w0 = (Inr ?repos, t1, w1)"
    using assms(2) by (simp add: getReposFromRelease_collect)
  have repos: "set ?repos = referenced_repos prss"
    by (simp add: set_uniq referenced_repos_def)
  have acted: "{repo \<in> set ?repos. whitelisted repo} = ?acted"
    unfolding repos by (auto simp: whitelisted_def)
  have t0: "git_events t0 = []" "post_events t0 = []"
    using getJiraCards_summary [of P E w] assms(1) by simp_all
  have t1: "git_events t1 = []" "post_events t1 = []"
    using getReposFromRelease_summary [of E "Some r" w0] R by simp_all
  note B = createReleaseBranches_resolved [OF assms(1) R]
  note Q = createReleasePRs_resolved [OF assms(1) R]
  have gitB: "fst ` set (git_events (trace_of (createReleaseBranches P E w)))
                = working_copy P ` ?acted"
    by (simp add: B t0 t1 branches_loop_dirs acted)
  have postQ: "fst ` set (post_events (trace_of (createReleasePRs P E w))) = pr_url ` ?acted"
  proof -
    have "fst ` set (post_events (trace_of (createReleasePRs P E w)))
            = set (map fst (post_events (trace_of (prs_loop P E ?repos w1))))"
      by (simp add: Q t0 t1)
    also have "\<dots> = pr_url ` ?acted"
      unfolding prs_loop_urls using acted by simp
    finally show ?thesis .
  qed
  have skipped: "branch_skip_notice repo \<in> set (trace_of (createReleaseBranches P E w)) \<and>
            working_copy P repo \<notin> fst ` set (git_events (trace_of (createReleaseBranches P E w))) \<and>
            pr_skip_notice repo \<in> set (trace_of (createReleasePRs P E w)) \<and>
            pr_url repo \<notin> fst ` set (post_events (trace_of (createReleasePRs P E w)))"
    if "repo \<in> referenced_repos prss - set WHITELISTED_REPOS" for repo
  proof -
    from that have mem: "repo \<in> set ?repos" and out: "\<not> whitelisted repo"
      by (simp_all add: repos whitelisted_def)
    have "branch_skip_notice repo \<in> set (trace_of (createReleaseBranches P E w))"
      using branches_loop_skips [OF mem out, of P E w1] by (simp add: B)
    moreover have "pr_skip_notice repo \<in> set (trace_of (createReleasePRs P E w))"
      using prs_loop_skips [OF mem out, of P E w1] by (simp add: Q)
    moreover have "working_copy P repo \<notin> working_copy P ` ?acted"
      using that by (auto simp: inj_working_copy)
    moreover have "pr_url repo \<notin> pr_url ` ?acted"
      using that by (auto simp: inj_pr_url)
    ultimately show ?thesis unfolding gitB postQ by blast
  qed
  have quiet: "post_events (trace_of (createReleaseBranches P E w)) = []"
              "git_events (trace_of (createReleasePRs P E w)) = []"
    by (simp_all add: B Q t0 t1 branches_loop_quiet prs_loop_quiet)
  from gitB postQ skipped quiet show ?thesis by blast
qed

lemma acted_within_whitelist:
  "fst ` set (git_events (trace_of (createReleaseBranches P E w)))
     \<subseteq> working_copy P ` set WHITELISTED_REPOS"
  "fst ` set (post_events (trace_of (createReleasePRs P E w)))
     \<subseteq> pr_url ` set WHITELISTED_REPOS"
proof -
  show "fst ` set (git_events (trace_of (createReleaseBranches P E w)))
          \<subseteq> working_copy P ` set WHITELISTED_REPOS"
  proof (cases rule: createReleaseBranches_cases [of P E w])
    case (unresolved e t w')
    then show ?thesis by simp
  next
    case (resolved release t0 w0 repos t1 w1)
    then have "fst ` set (git_events (trace_of (createReleaseBranches P E w)))
                 = working_copy P ` {repo \<in> set repos. whitelisted repo}"
      using branches_loop_dirs [of P E repos w1] by simp
    then show ?thesis by (auto simp: whitelisted_def)
  qed
  show "fst ` set (post_events (trace_of (createReleasePRs P E w)))
          \<subseteq> pr_url ` set WHITELISTED_REPOS"
  proof (cases rule: createReleasePRs_cases [of P E w])
    case (unresolved e t w')
    then show ?thesis by simp
  next
    case (resolved release t0 w0 repos t1 w1)
    then have "fst ` set (post_events (trace_of (createReleasePRs P E w)))
                 = set (map fst (post_events (trace_of (prs_loop P E repos w1))))"
      by simp
    then show ?thesis
      unfolding prs_loop_urls by (auto simp: whitelisted_def)
  qed
qed

subsection \<open>Evaluation on concrete runs\<close>

lemmas model_defs =
  main_def createReleaseBranches_def createReleasePRs_def displayReleaseDetails_def
  getJiraCardsFromRelease_def getReposFromRelease_def issuePullRequests_def getPRsFromJira_def
  checkoutBranch_def stashChangesIfNeeded_def git_def createBitbucketPr_def
  await_def try_catch_def perform_def ret_def throw_def console_log_def console_error_def
  console_table_def Let_def at_index_def includes_opt_def releaseAction_def releaseVersion_def
  releaseBranchName_def RELEASE_ACTIONS_def WHITELISTED_REPOS_def REPO_BASE_PATH_def
  BITBUCKET_API_URL_def BITBUCKET_WORKSPACE_def BITBUCKET_API_CREATE_PR_REQUEST_DATA_def
  uniq_def dquote_def squote_def linked_key_def
  branches_loop.simps prs_loop.simps

lemmas scenario_defs =
  example_process_def scenario_services_def quiet_services_def issue_X_def issue_Y_def
  issue_Z_def detail_X_def detail_Y_def detail_path_def pr_url_def

section \<open>The claims\<close>

text \<open>
  C5. For every list of issues whose detail fetches answer, the Repository Resolver
  returns the distinct repository names across all pull requests of all issues: every
  name that some pull request of some issue carries is in the result, nothing else is,
  and no name is there twice, however many pull requests within one issue or across
  issues carry it. For zero issues the result is empty.
\<close>

theorem C5_resolver_distinct_names:
  assumes "collectPullRequests E (issues r) w = (Inr prss, t, w')"
  shows "\<exists>repos. getReposFromRelease E (Some r) w = (Inr repos, t, w') \<and>
                 distinct repos \<and>
                 set repos = (\<Union>prs \<in> set prss. repositoryName ` set prs) \<and>
                 (\<forall>name \<in> set repos. count_list repos name = 1) \<and>
                 (issues r = [] \<longrightarrow> repos = [])"
proof -
  let ?repos = "uniq (concat (map (\<lambda>prs. uniq (map repositoryName prs)) prss))"
  have run: "getReposFromRelease E (Some r) w = (Inr ?repos, t, w')"
    using assms by (simp add: getReposFromRelease_collect)
  have d: "distinct ?repos" by (rule distinct_uniq)
  have s: "set ?repos = (\<Union>prs \<in> set prss. repositoryName ` set prs)"
    by (simp add: set_uniq)
  have c: "\<forall>name \<in> set ?repos. count_list ?repos name = 1"
    using d by (simp add: count_list_distinct)
  have z: "issues r = [] \<longrightarrow> ?repos = []"
    using assms by (auto simp: ret_def uniq_Nil)
  from run d s c z show ?thesis by blast
qed

theorem C5_resolver_distinct_names_witness:
  "getReposFromRelease (scenario_services True True) (Some \<lparr> issues = [issue_X, issue_Y] \<rparr>) ()
     = (Inr [''developer-api'', ''scratchpad'', ''developer-center''],
        [Call (GenericGet (detail_path ''10001'')) (Detail detail_X),
         Call (GenericGet (detail_path ''10002'')) (Detail detail_Y)], ())"
proof -
  let ?prss = "[[\<lparr> repositoryName = ''developer-api'', author_name = ''alice'' \<rparr>,
                 \<lparr> repositoryName = ''scratchpad'', author_name = ''bob'' \<rparr>,
                 \<lparr> repositoryName = ''developer-api'', author_name = ''alice'' \<rparr>],
                [\<lparr> repositoryName = ''developer-api'', author_name = ''carol'' \<rparr>,
                 \<lparr> repositoryName = ''developer-center'', author_name = ''carol'' \<rparr>]]"
  let ?t = "[Call (GenericGet (detail_path ''10001'')) (Detail detail_X),
             Call (GenericGet (detail_path ''10002'')) (Detail detail_Y)]"
  have h: "collectPullRequests (scenario_services True True)
             (issues \<lparr> issues = [issue_X, issue_Y] \<rparr>) () = (Inr ?prss, ?t, ())"
    by (simp add: model_defs scenario_defs)
  from C5_resolver_distinct_names [OF h] obtain repos where
    "getReposFromRelease (scenario_services True True) (Some \<lparr> issues = [issue_X, issue_Y] \<rparr>) ()
       = (Inr repos, ?t, ())" by blast
  moreover have "getReposFromRelease (scenario_services True True)
        (Some \<lparr> issues = [issue_X, issue_Y] \<rparr>) ()
       = (Inr [''developer-api'', ''scratchpad'', ''developer-center''], ?t, ())"
    by (simp add: model_defs scenario_defs)
  ultimately show ?thesis by simp
qed

text \<open>
  C8. An issue with zero linked pull requests contributes nothing: when its detail
  fetch answers with an entry that holds no pull request, the loop of the resolver goes
  on to the remaining issues with the array of names unchanged, and a release of that
  issue alone resolves, successfully, to no repository.
\<close>

theorem C8_issue_without_pull_requests:
  assumes "genericGet E (detail_path (issue_id i)) w = (Inr d, w')"
      and "detail d = entry # others"
      and "pullRequests entry = []"
  shows "getRepos_loop E (i # rest) repos w =
           (result_of (getRepos_loop E rest repos w'),
            Call (GenericGet (detail_path (issue_id i))) (Detail d)
              # trace_of (getRepos_loop E rest repos w'),
            world_of (getRepos_loop E rest repos w')) \<and>
         getReposFromRelease E (Some \<lparr> issues = [i] \<rparr>) w =
           (Inr [], [Call (GenericGet (detail_path (issue_id i))) (Detail d)], w')"
proof -
  have one: "issuePullRequests E i w =
               (Inr [], [Call (GenericGet (detail_path (issue_id i))) (Detail d)], w')"
    using assms
    by (simp add: issuePullRequests_def getPRsFromJira_def await_alt perform_def Let_def
                  at_index_def ret_def detail_path_def)
  have loop: "getRepos_loop E (i # rest) repos w =
           (result_of (getRepos_loop E rest repos w'),
            Call (GenericGet (detail_path (issue_id i))) (Detail d)
              # trace_of (getRepos_loop E rest repos w'),
            world_of (getRepos_loop E rest repos w'))" for rest repos
    by (simp add: await_alt one uniq_Nil)
  have "getReposFromRelease E (Some \<lparr> issues = [i] \<rparr>) w =
           (Inr [], [Call (GenericGet (detail_path (issue_id i))) (Detail d)], w')"
    by (simp add: getReposFromRelease_def await_alt one ret_def uniq_Nil)
  with loop show ?thesis by blast
qed

theorem C8_issue_without_pull_requests_witness:
  "getReposFromRelease quiet_services (Some \<lparr> issues = [issue_Z] \<rparr>) () =
     (Inr [],
      [Call (GenericGet (detail_path ''10003'')) (Detail \<lparr> detail = [\<lparr> pullRequests = [] \<rparr>] \<rparr>)],
      ())"
proof -
  have a: "genericGet quiet_services (detail_path (issue_id issue_Z)) ()
             = (Inr \<lparr> detail = [\<lparr> pullRequests = [] \<rparr>] \<rparr>, ())"
    by (simp add: quiet_services_def)
  have b: "detail \<lparr> detail = [\<lparr> pullRequests = [] \<rparr>] \<rparr> = \<lparr> pullRequests = [] \<rparr> # []"
    by simp
  have c: "pullRequests \<lparr> pullRequests = [] \<rparr> = []"
    by simp
  from C8_issue_without_pull_requests [OF a b c, of "[]" "[]"] show ?thesis
    by (simp add: issue_Z_def)
qed

text \<open>
  C3. If the detail fetch of some issue fails during repository resolution, the
  resolution as a whole fails with that error and yields no repository set; the release
  branch action and the pull request action then fail with it too, and neither has made
  a git call or a request to the hosting API.
\<close>

theorem C3_detail_failure_is_hard:
  "(e \<in> set (detail_failures (trace_of (getReposFromRelease E release w))) \<longrightarrow>
      result_of (getReposFromRelease E release w) = Inl e) \<and>
   (e \<in> set (detail_failures (trace_of (createReleaseBranches P E w))) \<longrightarrow>
      result_of (createReleaseBranches P E w) = Inl e \<and>
      git_events (trace_of (createReleaseBranches P E w)) = [] \<and>
      post_events (trace_of (createReleaseBranches P E w)) = []) \<and>
   (e \<in> set (detail_failures (trace_of (createReleasePRs P E w))) \<longrightarrow>
      result_of (createReleasePRs P E w) = Inl e \<and>
      git_events (trace_of (createReleasePRs P E w)) = [] \<and>
      post_events (trace_of (createReleasePRs P E w)) = [])"
proof -
  obtain release' t0 w0 where J: "getJiraCardsFromRelease P E w = (Inr release', t0, w0)"
    using getJiraCards_summary [of P E w]
    by (cases "getJiraCardsFromRelease P E w") auto
  have t0: "git_events t0 = []" "post_events t0 = []" "detail_failures t0 = []"
    using getJiraCards_summary [of P E w] J by simp_all
  note R = getReposFromRelease_summary [of E release' w0]
  have first: "e \<in> set (detail_failures (trace_of (getReposFromRelease E release w))) \<longrightarrow>
      result_of (getReposFromRelease E release w) = Inl e"
    using getReposFromRelease_summary [of E release w] by blast
  have both:
    "(e \<in> set (detail_failures (trace_of (createReleaseBranches P E w))) \<longrightarrow>
        result_of (createReleaseBranches P E w) = Inl e \<and>
        git_events (trace_of (createReleaseBranches P E w)) = [] \<and>
        post_events (trace_of (createReleaseBranches P E w)) = []) \<and>
     (e \<in> set (detail_failures (trace_of (createReleasePRs P E w))) \<longrightarrow>
        result_of (createReleasePRs P E w) = Inl e \<and>
        git_events (trace_of (createReleasePRs P E w)) = [] \<and>
        post_events (trace_of (createReleasePRs P E w)) = [])"
  proof (cases rule: task_cases [of "getReposFromRelease E release'" w0])
    case (fail e' t1 w1)
    with R t0 show ?thesis
      by (simp add: createReleaseBranches_unresolved [OF J fail]
                    createReleasePRs_unresolved [OF J fail])
  next
    case (ok repos t1 w1)
    with R have "detail_failures t1 = []" by auto
    with t0 show ?thesis
      by (simp add: createReleaseBranches_resolved [OF J ok] createReleasePRs_resolved [OF J ok]
                    branches_loop_quiet prs_loop_quiet)
  qed
  from first both show ?thesis by blast
qed

theorem C3_detail_failure_is_hard_witness:
  "result_of (getReposFromRelease (scenario_services True False)
                (Some \<lparr> issues = [issue_X, issue_Y] \<rparr>) ()) = Inl (Rejected ''network error'') \<and>
   result_of (createReleaseBranches (example_process [''release_branch'', ''2.0.0''])
                (scenario_services True False) ()) = Inl (Rejected ''network error'') \<and>
   git_events (trace_of (createReleaseBranches (example_process [''release_branch'', ''2.0.0''])
                (scenario_services True False) ())) = [] \<and>
   result_of (createReleasePRs (example_process [''release_pr'', ''2.0.0''])
                (scenario_services True False) ()) = Inl (Rejected ''network error'') \<and>
   post_events (trace_of (createReleasePRs (example_process [''release_pr'', ''2.0.0''])
                (scenario_services True False) ())) = []"
proof -
  let ?E = "scenario_services True False"
  let ?e = "Rejected ''network error''"
  have a: "?e \<in> set (detail_failures (trace_of (getReposFromRelease ?E
                (Some \<lparr> issues = [issue_X, issue_Y] \<rparr>) ())))"
    by (simp add: model_defs scenario_defs)
  have b: "?e \<in> set (detail_failures (trace_of (createReleaseBranches
                (example_process [''release_branch'', ''2.0.0'']) ?E ())))"
    by (simp add: model_defs scenario_defs)
  have c: "?e \<in> set (detail_failures (trace_of (createReleasePRs
                (example_process [''release_pr'', ''2.0.0'']) ?E ())))"
    by (simp add: model_defs scenario_defs)
  from a b c
    C3_detail_failure_is_hard [of ?e ?E "Some \<lparr> issues = [issue_X, issue_Y] \<rparr>" "()"
      "example_process [''release_branch'', ''2.0.0'']"]
    C3_detail_failure_is_hard [of ?e ?E "Some \<lparr> issues = [issue_X, issue_Y] \<rparr>" "()"
      "example_process [''release_pr'', ''2.0.0'']"]
  show ?thesis by blast
qed

text \<open>
  C2. The claim: when the search call fails, the failure is logged and every caller
  treats the missing result as the end of the work for this release, without crashing.
  The code logs the failure, produces no table and makes no branch operation, but the
  caller does crash: it reads \<^verbatim>\<open>issues\<close> of \<^verbatim>\<open>undefined\<close>, and the entry point's promise
  is rejected with a TypeError that nothing handles. Here the search fails with a
  network error, for the actions \<^verbatim>\<open>check\<close> and \<^verbatim>\<open>release_branch\<close>.
\<close>

theorem C2_search_failure_crashes_caller:
  "main (example_process [''check'', ''2.0.0'']) (scenario_services False True) () =
     (Inl (TypeError ''issues''),
      [Call (SearchJira (''project = DC AND fixVersion = '' @ [CHR 0x22] @ ''2.0.0'' @ [CHR 0x22]))
         (Failure (Rejected ''network error'')),
       ConsoleError [Str ''Error retrieving Jira cards from the release:'',
                     Str ''network error'']],
      ()) \<and>
   main (example_process [''release_branch'', ''2.0.0'']) (scenario_services False True) () =
     (Inl (TypeError ''issues''),
      [Call (SearchJira (''project = DC AND fixVersion = '' @ [CHR 0x22] @ ''2.0.0'' @ [CHR 0x22]))
         (Failure (Rejected ''network error'')),
       ConsoleError [Str ''Error retrieving Jira cards from the release:'',
                     Str ''network error'']],
      ())"
  by (simp add: model_defs scenario_defs)

text \<open>
  C9. For every action token that is none of \<^verbatim>\<open>check\<close>, \<^verbatim>\<open>release_branch\<close> and
  \<^verbatim>\<open>release_pr\<close> (an absent token too), the program writes one error line naming the
  token and returns normally: no service is called, the world is as it was, no entry
  point runs. For each of the three tokens the run is the run of exactly its entry point.
\<close>

theorem C9_dispatch:
  "(releaseAction P \<notin> {Some ''check'', Some ''release_branch'', Some ''release_pr''} \<longrightarrow>
      main P E w =
        (Inr (),
         [ConsoleError
            [Str (''Invalid action '' @ [CHR 0x22] @ template (releaseAction P) @ [CHR 0x22]
                  @ ''!'')]],
         w)) \<and>
   (releaseAction P = Some ''check'' \<longrightarrow> main P E w = displayReleaseDetails P E w) \<and>
   (releaseAction P = Some ''release_branch'' \<longrightarrow> main P E w = createReleaseBranches P E w) \<and>
   (releaseAction P = Some ''release_pr'' \<longrightarrow> main P E w = createReleasePRs P E w)"
  by (cases "releaseAction P")
     (auto simp: main_def includes_opt_def RELEASE_ACTIONS_def console_error_def dquote_def)

theorem C9_dispatch_witness:
  "main (example_process [''deploy'', ''2.0.0'']) (scenario_services True True) () =
     (Inr (), [ConsoleError [Str (''Invalid action '' @ [CHR 0x22] @ ''deploy'' @ [CHR 0x22] @ ''!'')]], ()) \<and>
   main (example_process []) (scenario_services True True) () =
     (Inr (), [ConsoleError [Str (''Invalid action '' @ [CHR 0x22] @ ''undefined'' @ [CHR 0x22] @ ''!'')]], ()) \<and>
   main (example_process [''check'', ''2.0.0'']) (scenario_services True True) () =
     displayReleaseDetails (example_process [''check'', ''2.0.0'']) (scenario_services True True) () \<and>
   main (example_process [''release_branch'', ''2.0.0'']) (scenario_services True True) () =
     createReleaseBranches (example_process [''release_branch'', ''2.0.0''])
       (scenario_services True True) () \<and>
   main (example_process [''release_pr'', ''2.0.0'']) (scenario_services True True) () =
     createReleasePRs (example_process [''release_pr'', ''2.0.0'']) (scenario_services True True) ()"
proof -
  let ?E = "scenario_services True True"
  have a: "releaseAction (example_process [''deploy'', ''2.0.0''])
             \<notin> {Some ''check'', Some ''release_branch'', Some ''release_pr''}"
          "template (releaseAction (example_process [''deploy'', ''2.0.0''])) = ''deploy''"
    by (simp_all add: releaseAction_def example_process_def at_index_def)
  have b: "releaseAction (example_process [])
             \<notin> {Some ''check'', Some ''release_branch'', Some ''release_pr''}"
          "template (releaseAction (example_process [])) = ''undefined''"
    by (simp_all add: releaseAction_def example_process_def at_index_def)
  have c: "releaseAction (example_process [''check'', ''2.0.0'']) = Some ''check''"
    by (simp add: releaseAction_def example_process_def at_index_def)
  have d: "releaseAction (example_process [''release_branch'', ''2.0.0'']) = Some ''release_branch''"
    by (simp add: releaseAction_def example_process_def at_index_def)
  have e: "releaseAction (example_process [''release_pr'', ''2.0.0'']) = Some ''release_pr''"
    by (simp add: releaseAction_def example_process_def at_index_def)
  from a C9_dispatch [of "example_process [''deploy'', ''2.0.0'']" ?E "()"]
  have 1: "main (example_process [''deploy'', ''2.0.0'']) ?E () =
     (Inr (), [ConsoleError [Str (''Invalid action '' @ [CHR 0x22] @ ''deploy'' @ [CHR 0x22] @ ''!'')]], ())"
    by simp
  from b C9_dispatch [of "example_process []" ?E "()"]
  have 2: "main (example_process []) ?E () =
     (Inr (), [ConsoleError [Str (''Invalid action '' @ [CHR 0x22] @ ''undefined'' @ [CHR 0x22] @ ''!'')]], ())"
    by simp
  from c C9_dispatch [of "example_process [''check'', ''2.0.0'']" ?E "()"]
  have 3: "main (example_process [''check'', ''2.0.0'']) ?E () =
     displayReleaseDetails (example_process [''check'', ''2.0.0'']) ?E ()"
    by blast
  from d C9_dispatch [of "example_process [''release_branch'', ''2.0.0'']" ?E "()"]
  have 4: "main (example_process [''release_branch'', ''2.0.0'']) ?E () =
     createReleaseBranches (example_process [''release_branch'', ''2.0.0'']) ?E ()"
    by blast
  from e C9_dispatch [of "example_process [''release_pr'', ''2.0.0'']" ?E "()"]
  have 5: "main (example_process [''release_pr'', ''2.0.0'']) ?E () =
     createReleasePRs (example_process [''release_pr'', ''2.0.0'']) ?E ()"
    by blast
  from 1 2 3 4 5 show ?thesis by blast
qed

text \<open>
  C10. The release identifier is never validated. When it is absent, the branch name is
  \<^verbatim>\<open>release/undefined\<close>, the title of the pull request is \<^verbatim>\<open>Release undefined\<close>, and
  every valid action still proceeds: its first step is the search whose query filters on
  the fix version \<^verbatim>\<open>"undefined"\<close>.
\<close>

theorem C10_absent_release_identifier:
  assumes "releaseVersion P = None"
  shows "releaseBranchName P = ''release/undefined'' \<and>
         title (BITBUCKET_API_CREATE_PR_REQUEST_DATA P) = ''Release undefined'' \<and>
         source_branch_name (BITBUCKET_API_CREATE_PR_REQUEST_DATA P) = ''release/undefined'' \<and>
         (includes_opt RELEASE_ACTIONS (releaseAction P) \<longrightarrow>
            (\<exists>reply rest.
               trace_of (main P E w) =
                 Call (SearchJira (''project = DC AND fixVersion = '' @ [CHR 0x22]
                                   @ ''undefined'' @ [CHR 0x22])) reply # rest))"
proof -
  have names: "releaseBranchName P = ''release/undefined''"
    "title (BITBUCKET_API_CREATE_PR_REQUEST_DATA P) = ''Release undefined''"
    "source_branch_name (BITBUCKET_API_CREATE_PR_REQUEST_DATA P) = ''release/undefined''"
    using assms by (simp_all add: releaseBranchName_def BITBUCKET_API_CREATE_PR_REQUEST_DATA_def)
  have jql: "release_jql P
               = ''project = DC AND fixVersion = '' @ [CHR 0x22] @ ''undefined'' @ [CHR 0x22]"
    using assms by (simp add: release_jql_def)
  have "\<exists>reply rest. trace_of (main P E w) = Call (SearchJira (release_jql P)) reply # rest"
    if "includes_opt RELEASE_ACTIONS (releaseAction P)"
    using that entry_points_start_with_search [of P E w]
    by (auto simp: main_def includes_opt_def RELEASE_ACTIONS_def split: option.splits)
  with names show ?thesis unfolding jql by blast
qed

theorem C10_absent_release_identifier_witness:
  "releaseBranchName (example_process [''release_branch'']) = ''release/undefined'' \<and>
   title (BITBUCKET_API_CREATE_PR_REQUEST_DATA (example_process [''release_branch'']))
     = ''Release undefined'' \<and>
   (\<exists>reply rest.
      trace_of (main (example_process [''release_branch'']) (scenario_services True True) ()) =
        Call (SearchJira (''project = DC AND fixVersion = '' @ [CHR 0x22]
                          @ ''undefined'' @ [CHR 0x22])) reply # rest)"
proof -
  have a: "releaseVersion (example_process [''release_branch'']) = None"
    by (simp add: releaseVersion_def example_process_def at_index_def)
  have b: "includes_opt RELEASE_ACTIONS (releaseAction (example_process [''release_branch'']))"
    by (simp add: includes_opt_def RELEASE_ACTIONS_def releaseAction_def example_process_def
                  at_index_def)
  from C10_absent_release_identifier [OF a, of "scenario_services True True" "()"] b
  show ?thesis by blast
qed

text \<open>
  C6. For every release identifier, the body of the request that creates a pull request
  has the title \<^verbatim>\<open>Release <identifier>\<close>, an empty description, the destination branch
  \<^verbatim>\<open>master\<close> and the source branch \<^verbatim>\<open>release/<identifier>\<close>. Every request the pull
  request action sends carries this body, and every branch the release branch action
  creates or pushes has this same name \<^verbatim>\<open>release/<identifier>\<close>.
\<close>

theorem C6_request_body_and_branch_name:
  assumes "releaseVersion P = Some v"
  shows "BITBUCKET_API_CREATE_PR_REQUEST_DATA P =
           \<lparr> title = ''Release '' @ v, description = '''',
             source_branch_name = ''release/'' @ v, destination_branch_name = ''master'' \<rparr> \<and>
         releaseBranchName P = ''release/'' @ v \<and>
         (\<lambda>(u, d, a, r). d) ` set (post_events (trace_of (createReleasePRs P E w)))
           \<subseteq> {BITBUCKET_API_CREATE_PR_REQUEST_DATA P} \<and>
         set (branches_used (trace_of (createReleaseBranches P E w')))
           \<subseteq> {source_branch_name (BITBUCKET_API_CREATE_PR_REQUEST_DATA P)}"
proof -
  have body: "BITBUCKET_API_CREATE_PR_REQUEST_DATA P =
           \<lparr> title = ''Release '' @ v, description = '''',
             source_branch_name = ''release/'' @ v, destination_branch_name = ''master'' \<rparr>"
    and name: "releaseBranchName P = ''release/'' @ v"
    using assms by (simp_all add: BITBUCKET_API_CREATE_PR_REQUEST_DATA_def releaseBranchName_def)
  have posts: "(\<lambda>(u, d, a, r). d) ` set (post_events (trace_of (createReleasePRs P E w)))
           \<subseteq> {BITBUCKET_API_CREATE_PR_REQUEST_DATA P}"
  proof (cases rule: createReleasePRs_cases [of P E w])
    case (unresolved e t w')
    then show ?thesis by simp
  next
    case (resolved release t0 w0 repos t1 w1)
    have "(\<lambda>(u, d, a, r). d) ` set (post_events (trace_of (prs_loop P E repos w1)))
            = (\<lambda>(u, d, a). d) ` set (map (\<lambda>(u, d, a, r). (u, d, a))
                                      (post_events (trace_of (prs_loop P E repos w1))))"
      by (force simp: image_iff)
    also have "\<dots> \<subseteq> {BITBUCKET_API_CREATE_PR_REQUEST_DATA P}"
      unfolding prs_loop_posts by auto
    finally show ?thesis using resolved by simp
  qed
  have "set (branches_used (trace_of (createReleaseBranches P E w'))) \<subseteq> {releaseBranchName P}"
  proof (cases rule: createReleaseBranches_cases [of P E w'])
    case (unresolved e t w'')
    then show ?thesis by (simp add: branches_used_def)
  next
    case (resolved release t0 w0 repos t1 w1)
    then show ?thesis
      using branches_loop_branch [of P E repos w1]
      by (simp add: git_free_projections del: branches_used_simps)
  qed
  then have branches: "set (branches_used (trace_of (createReleaseBranches P E w')))
           \<subseteq> {source_branch_name (BITBUCKET_API_CREATE_PR_REQUEST_DATA P)}"
    by (simp add: BITBUCKET_API_CREATE_PR_REQUEST_DATA_def)
  from body name posts branches show ?thesis by blast
qed

theorem C6_request_body_and_branch_name_witness:
  "BITBUCKET_API_CREATE_PR_REQUEST_DATA (example_process [''release_pr'', ''1.2.3'']) =
     \<lparr> title = ''Release 1.2.3'', description = '''',
       source_branch_name = ''release/1.2.3'', destination_branch_name = ''master'' \<rparr> \<and>
   releaseBranchName (example_process [''release_pr'', ''1.2.3'']) = ''release/1.2.3'' \<and>
   map (\<lambda>(u, d, a, r). d)
     (post_events (trace_of (createReleasePRs (example_process [''release_pr'', ''1.2.3''])
                               (scenario_services True True) ()))) =
     [\<lparr> title = ''Release 1.2.3'', description = '''',
        source_branch_name = ''release/1.2.3'', destination_branch_name = ''master'' \<rparr>,
      \<lparr> title = ''Release 1.2.3'', description = '''',
        source_branch_name = ''release/1.2.3'', destination_branch_name = ''master'' \<rparr>] \<and>
   branches_used (trace_of (createReleaseBranches (example_process [''release_pr'', ''1.2.3''])
                               (scenario_services True True) ())) =
     [''release/1.2.3'', ''release/1.2.3'']"
proof -
  have a: "releaseVersion (example_process [''release_pr'', ''1.2.3'']) = Some ''1.2.3''"
    by (simp add: releaseVersion_def example_process_def at_index_def)
  have b: "map (\<lambda>(u, d, a, r). d)
     (post_events (trace_of (createReleasePRs (example_process [''release_pr'', ''1.2.3''])
                               (scenario_services True True) ()))) =
     [\<lparr> title = ''Release 1.2.3'', description = '''',
        source_branch_name = ''release/1.2.3'', destination_branch_name = ''master'' \<rparr>,
      \<lparr> title = ''Release 1.2.3'', description = '''',
        source_branch_name = ''release/1.2.3'', destination_branch_name = ''master'' \<rparr>]"
    by (simp add: model_defs scenario_defs)
  have c: "branches_used (trace_of (createReleaseBranches (example_process [''release_pr'', ''1.2.3''])
                               (scenario_services True True) ())) =
     [''release/1.2.3'', ''release/1.2.3'']"
    by (simp add: model_defs scenario_defs branches_used_def)
  note th = C6_request_body_and_branch_name [OF a, of "scenario_services True True" "()" "()"]
  from th have d:
    "BITBUCKET_API_CREATE_PR_REQUEST_DATA (example_process [''release_pr'', ''1.2.3'']) =
       \<lparr> title = ''Release '' @ ''1.2.3'', description = '''',
         source_branch_name = ''release/'' @ ''1.2.3'', destination_branch_name = ''master'' \<rparr>"
    by (rule conjunct1)
  from th have e:
    "releaseBranchName (example_process [''release_pr'', ''1.2.3'']) = ''release/'' @ ''1.2.3''"
    by blast
  have "BITBUCKET_API_CREATE_PR_REQUEST_DATA (example_process [''release_pr'', ''1.2.3'']) =
     \<lparr> title = ''Release 1.2.3'', description = '''',
       source_branch_name = ''release/1.2.3'', destination_branch_name = ''master'' \<rparr>"
    unfolding d by simp
  moreover
  have "releaseBranchName (example_process [''release_pr'', ''1.2.3'']) = ''release/1.2.3''"
    unfolding e by simp
  ultimately show ?thesis using b c by blast
qed

text \<open>
  C7, as the code has it. For every repository handed to it, the Branch Operator works
  in the working copy of that repository only and makes exactly these calls in this
  order, stopping at the first one that fails, whose error is then its own: status;
  stash, only when the status says the working copy is not clean; fetch; checkout of
  \<^verbatim>\<open>dev\<close>; pull; creation of the local release branch; push of that branch to the
  remote \<^verbatim>\<open>origin\<close> by name. The push is called with the remote and the branch and
  no option: no call asks git for upstream tracking.
\<close>

theorem C7_branch_operator_sequence:
  "branch_sequence b
     (map snd (git_events (trace_of (checkoutBranch P E repository b w))))
     (result_of (checkoutBranch P E repository b w)) \<and>
   fst ` set (git_events (trace_of (checkoutBranch P E repository b w)))
     = {REPO_BASE_PATH P @ repository} \<and>
   filter requests_upstream
     (map (\<lambda>(d, c, r). c) (git_events (trace_of (checkoutBranch P E repository b w)))) = []"
proof -
  let ?d = "REPO_BASE_PATH P @ repository"
  obtain calls where
    seq: "branch_sequence b calls (result_of (checkoutBranch P E repository b w))" and
    tr: "trace_of (checkoutBranch P E repository b w) = branch_trace ?d calls"
    using checkoutBranch_trace [of b P E repository w] by blast
  let ?out = "checkoutBranch P E repository b w"
  have ge: "git_events (trace_of ?out) = map (\<lambda>(c, r). (?d, c, r)) calls"
    by (simp add: tr)
  have s1: "map snd (git_events (trace_of ?out)) = calls"
    unfolding ge by (induction calls) auto
  have s2: "map (\<lambda>(d, c, r). c) (git_events (trace_of ?out)) = map fst calls"
    unfolding ge by (induction calls) auto
  have "\<forall>c \<in> set (map fst calls). \<not> requests_upstream c"
    using branch_sequence_facts(5) [OF seq] by auto
  then have s3: "filter requests_upstream (map fst calls) = []"
    by (simp add: filter_empty_conv)
  show ?thesis
    unfolding s1 s2 using seq s3 checkoutBranch_facts(2) [of P E repository b w] by blast
qed

theorem C7_branch_operator_sequence_witness:
  "map snd (git_events (trace_of
      (checkoutBranch (example_process [''release_branch'', ''2.0.0'']) quiet_services
         ''developer-api'' ''release/2.0.0'' ()))) =
     [(Status, IsClean False), (Stash, Done), (Fetch, Done), (Checkout ''dev'', Done),
      (Pull, Done), (CheckoutLocalBranch ''release/2.0.0'', Done),
      (Push ''origin'' ''release/2.0.0'' [], Done)] \<and>
   branch_sequence ''release/2.0.0''
     [(Status, IsClean False), (Stash, Done), (Fetch, Done), (Checkout ''dev'', Done),
      (Pull, Done), (CheckoutLocalBranch ''release/2.0.0'', Done),
      (Push ''origin'' ''release/2.0.0'' [], Done)]
     (Inr ())"
proof -
  let ?out = "checkoutBranch (example_process [''release_branch'', ''2.0.0'']) quiet_services
                ''developer-api'' ''release/2.0.0'' ()"
  have calls: "map snd (git_events (trace_of ?out)) =
     [(Status, IsClean False), (Stash, Done), (Fetch, Done), (Checkout ''dev'', Done),
      (Pull, Done), (CheckoutLocalBranch ''release/2.0.0'', Done),
      (Push ''origin'' ''release/2.0.0'' [], Done)]"
    by (simp add: model_defs scenario_defs)
  have res: "result_of ?out = Inr ()"
    by (simp add: model_defs scenario_defs)
  from C7_branch_operator_sequence [of "''release/2.0.0''"
         "example_process [''release_branch'', ''2.0.0'']" quiet_services "''developer-api''" "()"]
  have "branch_sequence ''release/2.0.0'' (map snd (git_events (trace_of ?out))) (result_of ?out)"
    by (rule conjunct1)
  then show ?thesis unfolding calls res using calls by simp
qed

text \<open>
  C7 as stated has the push set upstream tracking. On a working copy where every
  command succeeds, the calls are status, fetch, checkout, pull, the new branch and a
  push that carries no option: none of them asks for upstream tracking.
\<close>

theorem C7_push_without_upstream_counterexample:
  "map (fst \<circ> snd) (git_events (trace_of
      (checkoutBranch (example_process [''release_branch'', ''2.0.0''])
         (scenario_services True True) ''developer-center'' ''release/2.0.0'' ()))) =
     [Status, Fetch, Checkout ''dev'', Pull, CheckoutLocalBranch ''release/2.0.0'',
      Push ''origin'' ''release/2.0.0'' []] \<and>
   \<not> list_ex requests_upstream
      (map (fst \<circ> snd) (git_events (trace_of
        (checkoutBranch (example_process [''release_branch'', ''2.0.0''])
           (scenario_services True True) ''developer-center'' ''release/2.0.0'' ()))))"
  by (simp add: model_defs scenario_defs)

text \<open>
  C1. In every run, the working copies in which the Branch Operator makes a git call
  are working copies of whitelisted repositories, and the requests of the Pull Request
  Operator go to whitelisted repositories: never more. For every release whose search
  and detail fetches answer, they are exactly the repositories that the pull requests
  of the release refer to and that are in the whitelist (membership is equality of
  strings); every referenced repository outside the whitelist gets its skip notice and
  is not acted on; the release branch action sends no request to the hosting API and
  the pull request action makes no git call.
\<close>

theorem C1_acted_repositories:
  "fst ` set (git_events (trace_of (createReleaseBranches P E w)))
     \<subseteq> working_copy P ` set WHITELISTED_REPOS \<and>
   fst ` set (post_events (trace_of (createReleasePRs P E w)))
     \<subseteq> pr_url ` set WHITELISTED_REPOS \<and>
   (getJiraCardsFromRelease P E w = (Inr (Some r), t0, w0) \<and>
    collectPullRequests E (issues r) w0 = (Inr prss, t1, w1) \<longrightarrow>
      fst ` set (git_events (trace_of (createReleaseBranches P E w)))
        = working_copy P ` (referenced_repos prss \<inter> set WHITELISTED_REPOS) \<and>
      fst ` set (post_events (trace_of (createReleasePRs P E w)))
        = pr_url ` (referenced_repos prss \<inter> set WHITELISTED_REPOS) \<and>
      (\<forall>repo \<in> referenced_repos prss - set WHITELISTED_REPOS.
         branch_skip_notice repo \<in> set (trace_of (createReleaseBranches P E w)) \<and>
         working_copy P repo \<notin> fst ` set (git_events (trace_of (createReleaseBranches P E w))) \<and>
         pr_skip_notice repo \<in> set (trace_of (createReleasePRs P E w)) \<and>
         pr_url repo \<notin> fst ` set (post_events (trace_of (createReleasePRs P E w)))) \<and>
      post_events (trace_of (createReleaseBranches P E w)) = [] \<and>
      git_events (trace_of (createReleasePRs P E w)) = [])"
proof -
  have resolved:
    "getJiraCardsFromRelease P E w = (Inr (Some r), t0, w0) \<and>
     collectPullRequests E (issues r) w0 = (Inr prss, t1, w1) \<longrightarrow>
      fst ` set (git_events (trace_of (createReleaseBranches P E w)))
        = working_copy P ` (referenced_repos prss \<inter> set WHITELISTED_REPOS) \<and>
      fst ` set (post_events (trace_of (createReleasePRs P E w)))
        = pr_url ` (referenced_repos prss \<inter> set WHITELISTED_REPOS) \<and>
      (\<forall>repo \<in> referenced_repos prss - set WHITELISTED_REPOS.
         branch_skip_notice repo \<in> set (trace_of (createReleaseBranches P E w)) \<and>
         working_copy P repo \<notin> fst ` set (git_events (trace_of (createReleaseBranches P E w))) \<and>
         pr_skip_notice repo \<in> set (trace_of (createReleasePRs P E w)) \<and>
         pr_url repo \<notin> fst ` set (post_events (trace_of (createReleasePRs P E w)))) \<and>
      post_events (trace_of (createReleaseBranches P E w)) = [] \<and>
      git_events (trace_of (createReleasePRs P E w)) = []"
  proof
    assume "getJiraCardsFromRelease P E w = (Inr (Some r), t0, w0) \<and>
            collectPullRequests E (issues r) w0 = (Inr prss, t1, w1)"
    then have J: "getJiraCardsFromRelease P E w = (Inr (Some r), t0, w0)"
      and C: "collectPullRequests E (issues r) w0 = (Inr prss, t1, w1)"
      by (rule conjunct1, rule conjunct2)
    show "fst ` set (git_events (trace_of (createReleaseBranches P E w)))
        = working_copy P ` (referenced_repos prss \<inter> set WHITELISTED_REPOS) \<and>
      fst ` set (post_events (trace_of (createReleasePRs P E w)))
        = pr_url ` (referenced_repos prss \<inter> set WHITELISTED_REPOS) \<and>
      (\<forall>repo \<in> referenced_repos prss - set WHITELISTED_REPOS.
         branch_skip_notice repo \<in> set (trace_of (createReleaseBranches P E w)) \<and>
         working_copy P repo \<notin> fst ` set (git_events (trace_of (createReleaseBranches P E w))) \<and>
         pr_skip_notice repo \<in> set (trace_of (createReleasePRs P E w)) \<and>
         pr_url repo \<notin> fst ` set (post_events (trace_of (createReleasePRs P E w)))) \<and>
      post_events (trace_of (createReleaseBranches P E w)) = [] \<and>
      git_events (trace_of (createReleasePRs P E w)) = []"
      by (rule acted_when_resolved [OF J C])
  qed
  show ?thesis
    by (rule conjI [OF acted_within_whitelist(1) conjI [OF acted_within_whitelist(2) resolved]])
qed

theorem C1_acted_repositories_witness:
  "fst ` set (git_events (trace_of (createReleaseBranches
       (example_process [''release_branch'', ''2.0.0'']) (scenario_services True True) ())))
     = {''/home/dev/Documents/developer-api'', ''/home/dev/Documents/developer-center''} \<and>
   branch_skip_notice ''scratchpad'' \<in> set (trace_of (createReleaseBranches
       (example_process [''release_branch'', ''2.0.0'']) (scenario_services True True) ())) \<and>
   ''Developer-Api'' \<notin> set WHITELISTED_REPOS"
proof -
  let ?P = "example_process [''release_branch'', ''2.0.0'']"
  let ?E = "scenario_services True True"
  let ?prss = "[[\<lparr> repositoryName = ''developer-api'', author_name = ''alice'' \<rparr>,
                 \<lparr> repositoryName = ''scratchpad'', author_name = ''bob'' \<rparr>,
                 \<lparr> repositoryName = ''developer-api'', author_name = ''alice'' \<rparr>],
                [\<lparr> repositoryName = ''developer-api'', author_name = ''carol'' \<rparr>,
                 \<lparr> repositoryName = ''developer-center'', author_name = ''carol'' \<rparr>]]"
  have a: "getJiraCardsFromRelease ?P ?E () =
             (Inr (Some \<lparr> issues = [issue_X, issue_Y] \<rparr>),
              [Call (SearchJira (release_jql ?P)) (Issues \<lparr> issues = [issue_X, issue_Y] \<rparr>)], ())"
    by (simp add: model_defs scenario_defs release_jql_def)
  have b: "collectPullRequests ?E (issues \<lparr> issues = [issue_X, issue_Y] \<rparr>) () =
             (Inr ?prss,
              [Call (GenericGet (detail_path ''10001'')) (Detail detail_X),
               Call (GenericGet (detail_path ''10002'')) (Detail detail_Y)], ())"
    by (simp add: model_defs scenario_defs)
  have refs: "referenced_repos ?prss = {''developer-api'', ''scratchpad'', ''developer-center''}"
    by (auto simp: referenced_repos_def)
  have acted: "referenced_repos ?prss \<inter> set WHITELISTED_REPOS
                 = {''developer-api'', ''developer-center''}"
    unfolding refs by (auto simp: WHITELISTED_REPOS_def)
  have skipped: "''scratchpad'' \<in> referenced_repos ?prss - set WHITELISTED_REPOS"
    unfolding refs by (simp add: WHITELISTED_REPOS_def)
  note th = C1_acted_repositories [THEN conjunct2, THEN conjunct2, THEN mp, OF conjI [OF a b]]
  from th have "fst ` set (git_events (trace_of (createReleaseBranches ?P ?E ())))
                  = working_copy ?P ` (referenced_repos ?prss \<inter> set WHITELISTED_REPOS)"
    by (rule conjunct1)
  then have 1: "fst ` set (git_events (trace_of (createReleaseBranches ?P ?E ())))
                  = {''/home/dev/Documents/developer-api'', ''/home/dev/Documents/developer-center''}"
    unfolding acted by (simp add: working_copy_def REPO_BASE_PATH_def example_process_def)
  from th skipped have 2: "branch_skip_notice ''scratchpad''
                             \<in> set (trace_of (createReleaseBranches ?P ?E ()))"
    by blast
  have 3: "''Developer-Api'' \<notin> set WHITELISTED_REPOS"
    by (simp add: WHITELISTED_REPOS_def)
  from 1 2 3 show ?thesis by blast
qed

text \<open>
  C4. Once the repositories of a release are resolved, no failure inside the Branch
  Operator or the Pull Request Operator ends the batch: both actions return normally;
  the Branch Operator starts, with its status query, in the working copy of every
  whitelisted repository of the resolved list, in order, and the git calls of the batch
  are, repository after repository, a full run of its sequence up to that repository's
  own first failure; the Pull Request Operator sends its request for every whitelisted
  repository, in order. Every git call and every request that failed is logged on the
  error stream with the name of its repository and the error itself.
\<close>

theorem C4_failures_do_not_end_the_batch:
  assumes "getJiraCardsFromRelease P E w = (Inr release, t0, w0)"
      and "getReposFromRelease E release w0 = (Inr repos, t1, w1)"
  shows "result_of (createReleaseBranches P E w) = Inr () \<and>
         status_dirs (trace_of (createReleaseBranches P E w))
           = map (working_copy P) (filter whitelisted repos) \<and>
         (\<exists>runs. map fst runs = filter whitelisted repos \<and>
            git_events (trace_of (createReleaseBranches P E w)) = runs_events P runs \<and>
            (\<forall>(repo, calls) \<in> set runs.
               \<exists>res. branch_sequence (releaseBranchName P) calls res)) \<and>
         (\<forall>(d, e) \<in> set (git_failures (trace_of (createReleaseBranches P E w))).
            \<exists>repo \<in> set repos. whitelisted repo \<and> d = working_copy P repo \<and>
              branch_error_notice repo e \<in> set (trace_of (createReleaseBranches P E w))) \<and>
         result_of (createReleasePRs P E w) = Inr () \<and>
         map fst (post_events (trace_of (createReleasePRs P E w)))
           = map pr_url (filter whitelisted repos) \<and>
         (\<forall>(u, e) \<in> set (post_failures (trace_of (createReleasePRs P E w))).
            \<exists>repo \<in> set repos. whitelisted repo \<and> u = pr_url repo \<and>
              pr_error_notice repo e \<in> set (trace_of (createReleasePRs P E w)))"
proof -
  have t0: "git_events t0 = []" "post_events t0 = []"
    using getJiraCards_summary [of P E w] assms(1) by simp_all
  have t1: "git_events t1 = []" "post_events t1 = []"
    using getReposFromRelease_summary [of E release w0] assms(2) by simp_all
  have t01: "git_events (t0 @ t1) = []" "post_events (t0 @ t1) = []"
    using t0 t1 by simp_all
  let ?L = "branches_loop P E repos w1"
  let ?M = "prs_loop P E repos w1"
  have B: "createReleaseBranches P E w = (result_of ?L, (t0 @ t1) @ trace_of ?L, world_of ?L)"
    using createReleaseBranches_resolved [OF assms] by simp
  have Q: "createReleasePRs P E w = (result_of ?M, (t0 @ t1) @ trace_of ?M, world_of ?M)"
    using createReleasePRs_resolved [OF assms] by simp
  have 1: "result_of (createReleaseBranches P E w) = Inr ()"
    by (simp add: B branches_loop_result)
  have 2: "status_dirs (trace_of (createReleaseBranches P E w))
             = map (working_copy P) (filter whitelisted repos)"
    by (simp add: B git_free_projections(2) [OF t01(1)] branches_loop_status
             del: status_dirs_simps append_assoc)
  have 3: "\<exists>runs. map fst runs = filter whitelisted repos \<and>
            git_events (trace_of (createReleaseBranches P E w)) = runs_events P runs \<and>
            (\<forall>(repo, calls) \<in> set runs.
               \<exists>res. branch_sequence (releaseBranchName P) calls res)"
    using branches_loop_runs [of repos P E w1] by (simp add: B t0 t1)
  have 4: "\<exists>repo \<in> set repos. whitelisted repo \<and> d = working_copy P repo \<and>
              branch_error_notice repo e \<in> set (trace_of (createReleaseBranches P E w))"
    if "(d, e) \<in> set (git_failures (trace_of (createReleaseBranches P E w)))" for d e
  proof -
    from that have "(d, e) \<in> set (git_failures (trace_of ?L))"
      by (simp add: B git_free_projections(3) [OF t01(1)] del: git_failures_simps append_assoc)
    from branches_loop_failures [OF this] show ?thesis
      by (auto simp: B)
  qed
  have 5: "result_of (createReleasePRs P E w) = Inr ()"
    by (simp add: Q prs_loop_result)
  have 6: "map fst (post_events (trace_of (createReleasePRs P E w)))
             = map pr_url (filter whitelisted repos)"
    by (simp add: Q t0 t1 prs_loop_urls)
  have 7: "\<exists>repo \<in> set repos. whitelisted repo \<and> u = pr_url repo \<and>
              pr_error_notice repo e \<in> set (trace_of (createReleasePRs P E w))"
    if "(u, e) \<in> set (post_failures (trace_of (createReleasePRs P E w)))" for u e
  proof -
    from that have "(u, e) \<in> set (post_failures (trace_of ?M))"
      by (simp add: Q git_free_projections(4) [OF t01(2)] del: post_failures_simps append_assoc)
    from prs_loop_failures [OF this] show ?thesis
      by (auto simp: Q)
  qed
  from 1 2 3 4 5 6 7 show ?thesis by blast
qed

theorem C4_failures_do_not_end_the_batch_witness:
  "git_failures (trace_of (createReleaseBranches
      (example_process [''release_branch'', ''2.0.0'']) (scenario_services True True) ()))
     = [(''/home/dev/Documents/developer-api'', Rejected ''fetch failed'')] \<and>
   result_of (createReleaseBranches
      (example_process [''release_branch'', ''2.0.0'']) (scenario_services True True) ()) = Inr () \<and>
   status_dirs (trace_of (createReleaseBranches
      (example_process [''release_branch'', ''2.0.0'']) (scenario_services True True) ()))
     = [''/home/dev/Documents/developer-api'', ''/home/dev/Documents/developer-center''] \<and>
   branch_error_notice ''developer-api'' (Rejected ''fetch failed'')
     \<in> set (trace_of (createReleaseBranches
      (example_process [''release_branch'', ''2.0.0'']) (scenario_services True True) ())) \<and>
   map fst (post_events (trace_of (createReleasePRs
      (example_process [''release_branch'', ''2.0.0'']) (scenario_services True True) ())))
     = [pr_url ''developer-api'', pr_url ''developer-center'']"
proof -
  let ?P = "example_process [''release_branch'', ''2.0.0'']"
  let ?E = "scenario_services True True"
  let ?B = "trace_of (createReleaseBranches ?P ?E ())"
  have a: "getJiraCardsFromRelease ?P ?E () =
             (Inr (Some \<lparr> issues = [issue_X, issue_Y] \<rparr>),
              [Call (SearchJira (release_jql ?P)) (Issues \<lparr> issues = [issue_X, issue_Y] \<rparr>)], ())"
    by (simp add: model_defs scenario_defs release_jql_def)
  have b: "getReposFromRelease ?E (Some \<lparr> issues = [issue_X, issue_Y] \<rparr>) () =
             (Inr [''developer-api'', ''scratchpad'', ''developer-center''],
              [Call (GenericGet (detail_path ''10001'')) (Detail detail_X),
               Call (GenericGet (detail_path ''10002'')) (Detail detail_Y)], ())"
    by (simp add: model_defs scenario_defs)
  have wl: "filter whitelisted [''developer-api'', ''scratchpad'', ''developer-center'']
              = [''developer-api'', ''developer-center'']"
    by (simp add: whitelisted_def WHITELISTED_REPOS_def)
  have f: "git_failures ?B = [(''/home/dev/Documents/developer-api'', Rejected ''fetch failed'')]"
    by (simp add: model_defs scenario_defs git_failures_def)
  note th = C4_failures_do_not_end_the_batch [OF a b]
  from th have 1: "result_of (createReleaseBranches ?P ?E ()) = Inr ()"
    by (rule conjunct1)
  from th have "status_dirs ?B = map (working_copy ?P)
                  (filter whitelisted [''developer-api'', ''scratchpad'', ''developer-center''])"
    by blast
  then have 2: "status_dirs ?B
      = [''/home/dev/Documents/developer-api'', ''/home/dev/Documents/developer-center'']"
    unfolding wl by (simp add: working_copy_def REPO_BASE_PATH_def example_process_def)
  from th have "\<forall>(d, e) \<in> set (git_failures ?B).
            \<exists>repo \<in> set [''developer-api'', ''scratchpad'', ''developer-center''].
              whitelisted repo \<and> d = working_copy ?P repo \<and> branch_error_notice repo e \<in> set ?B"
    by blast
  then have "\<exists>repo \<in> set [''developer-api'', ''scratchpad'', ''developer-center''].
              whitelisted repo \<and>
              ''/home/dev/Documents/developer-api'' = working_copy ?P repo \<and>
              branch_error_notice repo (Rejected ''fetch failed'') \<in> set ?B"
    unfolding f by simp
  then have 3: "branch_error_notice ''developer-api'' (Rejected ''fetch failed'') \<in> set ?B"
    by (auto simp: working_copy_def REPO_BASE_PATH_def example_process_def)
  from th have "map fst (post_events (trace_of (createReleasePRs ?P ?E ())))
                  = map pr_url (filter whitelisted [''developer-api'', ''scratchpad'', ''developer-center''])"
    by blast
  then have 4: "map fst (post_events (trace_of (createReleasePRs ?P ?E ())))
                  = [pr_url ''developer-api'', pr_url ''developer-center'']"
    unfolding wl by simp
  from f 1 2 3 4 show ?thesis by blast
qed

end
